theory Spec2Isabelle
  imports Main "HOL-Library.Word"
begin

unbundle bit_operations_syntax

section \<open>Bytes and strings\<close>

text \<open>
  A Go \<^verbatim>\<open>string\<close> is a sequence of bytes, and so is an Isabelle \<^typ>\<open>string\<close>.
  \<^verbatim>\<open>[]byte(s)\<close> and \<^verbatim>\<open>string(b)\<close> change the type only.
  Go's \<^verbatim>\<open>int\<close> is taken at its 64-bit size (amd64, arm64).
\<close>

type_synonym byte = "8 word"
type_synonym uint32 = "32 word"
type_synonym int64 = "64 word"

definition bytes_of :: "string \<Rightarrow> byte list" where
  "bytes_of s = map (\<lambda>c. word_of_nat (of_char c)) s"

definition string_of :: "byte list \<Rightarrow> string" where
  "string_of bs = map (\<lambda>b. char_of (unat b)) bs"

text \<open>\<^verbatim>\<open>strings.HasPrefix(s, prefix)\<close>.\<close>

definition strings_HasPrefix :: "string \<Rightarrow> string \<Rightarrow> bool" where
  "strings_HasPrefix s p = (length s \<ge> length p \<and> take (length p) s = p)"

text \<open>
  \<^verbatim>\<open>strings.Split(s, sep)\<close> for a separator of one byte, the only use in the client:
  the substrings between the separators, one more than there are separators.
\<close>

fun strings_Split :: "string \<Rightarrow> char \<Rightarrow> string list" where
  "strings_Split [] sep = [[]]"
| "strings_Split (c # cs) sep =
     (if c = sep then [] # strings_Split cs sep
      else (case strings_Split cs sep of
              [] \<Rightarrow> [[c]]
            | p # ps \<Rightarrow> (c # p) # ps))"

subsection \<open>encoding/hex\<close>

definition hextable :: string where
  "hextable = ''0123456789abcdef''"

text \<open>\<^verbatim>\<open>hex.EncodeToString\<close>, which is also what \<^verbatim>\<open>%x\<close> prints for a byte slice.\<close>

definition hex_EncodeToString :: "byte list \<Rightarrow> string" where
  "hex_EncodeToString src =
     concat (map (\<lambda>v. [hextable ! unat (drop_bit 4 v), hextable ! unat (v AND 0x0f)]) src)"

datatype hex_error = InvalidByteError char | ErrLength

text \<open>The reverse table of the package: the value of a hex digit of either case.\<close>

definition fromHexChar :: "char \<Rightarrow> byte option" where
  "fromHexChar c =
     (let n = (of_char c :: nat) in
      if 48 \<le> n \<and> n \<le> 57 then Some (word_of_nat (n - 48))
      else if 97 \<le> n \<and> n \<le> 102 then Some (word_of_nat (n - 97 + 10))
      else if 65 \<le> n \<and> n \<le> 70 then Some (word_of_nat (n - 65 + 10))
      else None)"

text \<open>
  \<^verbatim>\<open>hex.DecodeString\<close>: two digits a byte; the first bad digit is reported, and an odd
  length after the last full pair.
\<close>

fun hex_DecodeString :: "string \<Rightarrow> hex_error + byte list" where
  "hex_DecodeString [] = Inr []"
| "hex_DecodeString [p] =
     (case fromHexChar p of None \<Rightarrow> Inl (InvalidByteError p) | Some a \<Rightarrow> Inl ErrLength)"
| "hex_DecodeString (p # q # rest) =
     (case fromHexChar p of
        None \<Rightarrow> Inl (InvalidByteError p)
      | Some a \<Rightarrow>
          (case fromHexChar q of
             None \<Rightarrow> Inl (InvalidByteError q)
           | Some b \<Rightarrow>
               (case hex_DecodeString rest of
                  Inl e \<Rightarrow> Inl e
                | Inr bs \<Rightarrow> Inr ((push_bit 4 a OR b) # bs))))"

subsection \<open>strconv\<close>

datatype NumError = ErrSyntax | ErrRange

definition isDigit :: "char \<Rightarrow> bool" where
  "isDigit c = (48 \<le> (of_char c :: nat) \<and> (of_char c :: nat) \<le> 57)"

definition digitVal :: "char \<Rightarrow> int" where
  "digitVal c = of_char c - 48"

definition maxUint64 :: int where
  "maxUint64 = 2 ^ 64 - 1"

text \<open>
  The loop of \<^verbatim>\<open>strconv.ParseUint(s, 10, 64)\<close>: a byte that is no decimal digit is a
  syntax error, a value beyond 64 bits a range error, whichever comes first.
\<close>

fun ParseUint_loop :: "int \<Rightarrow> string \<Rightarrow> NumError + int" where
  "ParseUint_loop n [] = Inr n"
| "ParseUint_loop n (c # cs) =
     (if \<not> isDigit c then Inl ErrSyntax
      else if n * 10 + digitVal c > maxUint64 then Inl ErrRange
      else ParseUint_loop (n * 10 + digitVal c) cs)"

definition strconv_ParseUint :: "string \<Rightarrow> NumError + int" where
  "strconv_ParseUint s = (if s = [] then Inl ErrSyntax else ParseUint_loop 0 s)"

text \<open>
  \<^verbatim>\<open>strconv.Atoi\<close> is \<^verbatim>\<open>ParseInt(s, 10, 0)\<close> (its fast path for short strings computes
  the same): an optional sign, then \<^verbatim>\<open>ParseUint\<close>, then the range of a 64-bit \<^verbatim>\<open>int\<close>.
\<close>

definition strconv_Atoi :: "string \<Rightarrow> NumError + int" where
  "strconv_Atoi s =
     (if s = [] then Inl ErrSyntax
      else
        let neg = (hd s = CHR ''-'');
            s1 = (if hd s = CHR ''+'' \<or> hd s = CHR ''-'' then tl s else s)
        in case strconv_ParseUint s1 of
             Inl e \<Rightarrow> Inl e
           | Inr un \<Rightarrow>
               if \<not> neg \<and> un \<ge> 2 ^ 63 then Inl ErrRange
               else if neg \<and> un > 2 ^ 63 then Inl ErrRange
               else Inr (if neg then - un else un))"

section \<open>The hash functions of the Go libraries\<close>

fun chunks :: "nat \<Rightarrow> 'a list \<Rightarrow> 'a list list" where
  "chunks n xs = (if n = 0 \<or> xs = [] then [] else take n xs # chunks n (drop n xs))"

declare chunks.simps [simp del]

definition be_word32 :: "byte list \<Rightarrow> uint32" where
  "be_word32 bs = foldl (\<lambda>acc b. push_bit 8 acc OR ucast b) 0 bs"

definition le_word32 :: "byte list \<Rightarrow> uint32" where
  "le_word32 bs = foldr (\<lambda>b acc. push_bit 8 acc OR ucast b) bs 0"

definition be_bytes32 :: "uint32 \<Rightarrow> byte list" where
  "be_bytes32 w = [ucast (drop_bit 24 w), ucast (drop_bit 16 w), ucast (drop_bit 8 w), ucast w]"

definition le_bytes32 :: "uint32 \<Rightarrow> byte list" where
  "le_bytes32 w = [ucast w, ucast (drop_bit 8 w), ucast (drop_bit 16 w), ucast (drop_bit 24 w)]"

definition le_bytes64 :: "int64 \<Rightarrow> byte list" where
  "le_bytes64 w = map (\<lambda>i. ucast (drop_bit (8 * i) w)) [0 ..< 8]"

definition be_bytes64 :: "int64 \<Rightarrow> byte list" where
  "be_bytes64 w = rev (le_bytes64 w)"

text \<open>
  The padding both hashes share: a byte \<^verbatim>\<open>0x80\<close>, zeros up to 56 modulo 64, and the
  length of the message in bits as 64 bits.
\<close>

definition pad_zeros :: "nat \<Rightarrow> nat" where
  "pad_zeros len = (if len mod 64 < 56 then 55 - len mod 64 else 119 - len mod 64)"

definition bit_length :: "byte list \<Rightarrow> int64" where
  "bit_length msg = word_of_nat (8 * length msg)"

subsection \<open>crypto/md5\<close>

definition md5_T :: "uint32 list" where
  "md5_T =
   [0xd76aa478, 0xe8c7b756, 0x242070db, 0xc1bdceee, 0xf57c0faf, 0x4787c62a, 0xa8304613, 0xfd469501,
    0x698098d8, 0x8b44f7af, 0xffff5bb1, 0x895cd7be, 0x6b901122, 0xfd987193, 0xa679438e, 0x49b40821,
    0xf61e2562, 0xc040b340, 0x265e5a51, 0xe9b6c7aa, 0xd62f105d, 0x02441453, 0xd8a1e681, 0xe7d3fbc8,
    0x21e1cde6, 0xc33707d6, 0xf4d50d87, 0x455a14ed, 0xa9e3e905, 0xfcefa3f8, 0x676f02d9, 0x8d2a4c8a,
    0xfffa3942, 0x8771f681, 0x6d9d6122, 0xfde5380c, 0xa4beea44, 0x4bdecfa9, 0xf6bb4b60, 0xbebfbc70,
    0x289b7ec6, 0xeaa127fa, 0xd4ef3085, 0x04881d05, 0xd9d4d039, 0xe6db99e5, 0x1fa27cf8, 0xc4ac5665,
    0xf4292244, 0x432aff97, 0xab9423a7, 0xfc93a039, 0x655b59c3, 0x8f0ccc92, 0xffeff47d, 0x85845dd1,
    0x6fa87e4f, 0xfe2ce6e0, 0xa3014314, 0x4e0811a1, 0xf7537e82, 0xbd3af235, 0x2ad7d2bb, 0xeb86d391]"

definition md5_shift :: "nat list" where
  "md5_shift =
   [7, 12, 17, 22, 7, 12, 17, 22, 7, 12, 17, 22, 7, 12, 17, 22,
    5, 9, 14, 20, 5, 9, 14, 20, 5, 9, 14, 20, 5, 9, 14, 20,
    4, 11, 16, 23, 4, 11, 16, 23, 4, 11, 16, 23, 4, 11, 16, 23,
    6, 10, 15, 21, 6, 10, 15, 21, 6, 10, 15, 21, 6, 10, 15, 21]"

type_synonym md5_state = "uint32 \<times> uint32 \<times> uint32 \<times> uint32"

definition md5_step :: "uint32 list \<Rightarrow> md5_state \<Rightarrow> nat \<Rightarrow> md5_state" where
  "md5_step m st i =
     (case st of (a, b, c, d) \<Rightarrow>
        let (f, g) =
              (if i < 16 then ((b AND c) OR (NOT b AND d), i)
               else if i < 32 then ((d AND b) OR (NOT d AND c), (5 * i + 1) mod 16)
               else if i < 48 then (b XOR c XOR d, (3 * i + 5) mod 16)
               else (c XOR (b OR NOT d), (7 * i) mod 16));
            x = f + a + md5_T ! i + m ! g
        in (d, b + word_rotl (md5_shift ! i) x, b, c))"

definition md5_block :: "md5_state \<Rightarrow> byte list \<Rightarrow> md5_state" where
  "md5_block st blk =
     (case st of (a0, b0, c0, d0) \<Rightarrow>
        (case foldl (md5_step (map le_word32 (chunks 4 blk))) st [0 ..< 64] of
           (a, b, c, d) \<Rightarrow> (a0 + a, b0 + b, c0 + c, d0 + d)))"

definition md5_pad :: "byte list \<Rightarrow> byte list" where
  "md5_pad msg = msg @ [0x80] @ replicate (pad_zeros (length msg)) 0 @ le_bytes64 (bit_length msg)"

definition md5_Sum :: "byte list \<Rightarrow> byte list" where
  "md5_Sum msg =
     (case foldl md5_block (0x67452301, 0xefcdab89, 0x98badcfe, 0x10325476) (chunks 64 (md5_pad msg)) of
        (a, b, c, d) \<Rightarrow> le_bytes32 a @ le_bytes32 b @ le_bytes32 c @ le_bytes32 d)"

subsection \<open>crypto/sha256\<close>

definition sha256_Size :: nat where
  "sha256_Size = 32"

definition sha256_BlockSize :: nat where
  "sha256_BlockSize = 64"

text \<open>The round constants \<^verbatim>\<open>_K\<close>, eight to a row.\<close>

definition sha256_K :: "uint32 list" where
  "sha256_K = concat
     [[0x428a2f98, 0x71374491, 0xb5c0fbcf, 0xe9b5dba5, 0x3956c25b, 0x59f111f1, 0x923f82a4, 0xab1c5ed5],
      [0xd807aa98, 0x12835b01, 0x243185be, 0x550c7dc3, 0x72be5d74, 0x80deb1fe, 0x9bdc06a7, 0xc19bf174],
      [0xe49b69c1, 0xefbe4786, 0x0fc19dc6, 0x240ca1cc, 0x2de92c6f, 0x4a7484aa, 0x5cb0a9dc, 0x76f988da],
      [0x983e5152, 0xa831c66d, 0xb00327c8, 0xbf597fc7, 0xc6e00bf3, 0xd5a79147, 0x06ca6351, 0x14292967],
      [0x27b70a85, 0x2e1b2138, 0x4d2c6dfc, 0x53380d13, 0x650a7354, 0x766a0abb, 0x81c2c92e, 0x92722c85],
      [0xa2bfe8a1, 0xa81a664b, 0xc24b8b70, 0xc76c51a3, 0xd192e819, 0xd6990624, 0xf40e3585, 0x106aa070],
      [0x19a4c116, 0x1e376c08, 0x2748774c, 0x34b0bcb5, 0x391c0cb3, 0x4ed8aa4a, 0x5b9cca4f, 0x682e6ff3],
      [0x748f82ee, 0x78a5636f, 0x84c87814, 0x8cc70208, 0x90befffa, 0xa4506ceb, 0xbef9a3f7, 0xc67178f2]]"

type_synonym sha256_state =
  "uint32 \<times> uint32 \<times> uint32 \<times> uint32 \<times> uint32 \<times> uint32 \<times> uint32 \<times> uint32"

fun sha256_schedule :: "nat \<Rightarrow> uint32 list \<Rightarrow> uint32 list" where
  "sha256_schedule 0 w = w"
| "sha256_schedule (Suc k) w =
     (let n = length w;
          v1 = w ! (n - 2);
          v2 = w ! (n - 15);
          t1 = word_rotr 17 v1 XOR word_rotr 19 v1 XOR drop_bit 10 v1;
          t2 = word_rotr 7 v2 XOR word_rotr 18 v2 XOR drop_bit 3 v2
      in sha256_schedule k (w @ [t1 + w ! (n - 7) + t2 + w ! (n - 16)]))"

definition sha256_round :: "sha256_state \<Rightarrow> uint32 \<times> uint32 \<Rightarrow> sha256_state" where
  "sha256_round st kw =
     (case st of (a, b, c, d, e, f, g, h) \<Rightarrow>
        let t1 = h + (word_rotr 6 e XOR word_rotr 11 e XOR word_rotr 25 e)
                   + ((e AND f) XOR (NOT e AND g)) + fst kw + snd kw;
            t2 = (word_rotr 2 a XOR word_rotr 13 a XOR word_rotr 22 a)
                   + ((a AND b) XOR (a AND c) XOR (b AND c))
        in (t1 + t2, a, b, c, d + t1, e, f, g))"

definition sha256_block :: "sha256_state \<Rightarrow> byte list \<Rightarrow> sha256_state" where
  "sha256_block st blk =
     (case st of (a0, b0, c0, d0, e0, f0, g0, h0) \<Rightarrow>
        (case foldl sha256_round st
                (zip sha256_K (sha256_schedule 48 (map be_word32 (chunks 4 blk)))) of
           (a, b, c, d, e, f, g, h) \<Rightarrow>
             (a0 + a, b0 + b, c0 + c, d0 + d, e0 + e, f0 + f, g0 + g, h0 + h)))"

definition sha256_pad :: "byte list \<Rightarrow> byte list" where
  "sha256_pad msg =
     msg @ [0x80] @ replicate (pad_zeros (length msg)) 0 @ be_bytes64 (bit_length msg)"

definition sha256_Sum256 :: "byte list \<Rightarrow> byte list" where
  "sha256_Sum256 msg =
     (case foldl sha256_block
             (0x6a09e667, 0xbb67ae85, 0x3c6ef372, 0xa54ff53a,
              0x510e527f, 0x9b05688c, 0x1f83d9ab, 0x5be0cd19)
             (chunks 64 (sha256_pad msg)) of
        (a, b, c, d, e, f, g, h) \<Rightarrow>
          be_bytes32 a @ be_bytes32 b @ be_bytes32 c @ be_bytes32 d @
          be_bytes32 e @ be_bytes32 f @ be_bytes32 g @ be_bytes32 h)"

subsection \<open>crypto/hmac with SHA-256\<close>

definition hmac_sha256 :: "byte list \<Rightarrow> byte list \<Rightarrow> byte list" where
  "hmac_sha256 key msg =
     (let k = (if length key > sha256_BlockSize then sha256_Sum256 key else key);
          kp = k @ replicate (sha256_BlockSize - length k) 0;
          ipad = map (\<lambda>b. b XOR 0x36) kp;
          opad = map (\<lambda>b. b XOR 0x5c) kp
      in sha256_Sum256 (opad @ sha256_Sum256 (ipad @ msg)))"

subsection \<open>golang.org/x/crypto/pbkdf2\<close>

text \<open>
  The inner loop of \<^verbatim>\<open>pbkdf2.Key\<close>, \<^verbatim>\<open>for n := 2; n <= iter; n++\<close>: each pass
  replaces \<^verbatim>\<open>U\<close> by its MAC and xors it into \<^verbatim>\<open>T\<close>. The first argument is the
  number of passes left.
\<close>

fun pbkdf2_rounds :: "nat \<Rightarrow> byte list \<Rightarrow> byte list \<Rightarrow> byte list \<Rightarrow> byte list" where
  "pbkdf2_rounds 0 password U T = T"
| "pbkdf2_rounds (Suc k) password U T =
     (let U' = hmac_sha256 password U
      in pbkdf2_rounds k password U' (map (\<lambda>(x, y). x XOR y) (zip T U')))"

definition pbkdf2_T :: "byte list \<Rightarrow> byte list \<Rightarrow> int \<Rightarrow> nat \<Rightarrow> byte list" where
  "pbkdf2_T password salt iter block =
     (let U = hmac_sha256 password (salt @ be_bytes32 (word_of_nat block))
      in pbkdf2_rounds (nat (iter - 1)) password U U)"

text \<open>
  \<^verbatim>\<open>pbkdf2.Key(password, salt, iter, keyLen, sha256.New)\<close>: the blocks
  \<^verbatim>\<open>1 .. numBlocks\<close> one after the other, cut at \<^verbatim>\<open>keyLen\<close> bytes. An iteration count
  below 2 leaves the inner loop without a pass. The counter of that loop is taken
  without its 64-bit bound, which only a count of \<open>2\<^sup>6\<^sup>3 - 1\<close> passes would reach.
\<close>

definition pbkdf2_Key :: "byte list \<Rightarrow> byte list \<Rightarrow> int \<Rightarrow> nat \<Rightarrow> byte list" where
  "pbkdf2_Key password salt iter keyLen =
     (let hashLen = sha256_Size;
          numBlocks = (keyLen + hashLen - 1) div hashLen
      in take keyLen (concat (map (pbkdf2_T password salt iter) [1 ..< numBlocks + 1])))"

section \<open>The client\<close>

subsection \<open>Errors, effects and the world outside\<close>

text \<open>
  Modelled from the spec: the repository's package \<^verbatim>\<open>internal/errors\<close> is not among
  the sources. By the specification every error propagates as the result of the
  handshake call, so \<^verbatim>\<open>errors.Wrapf(err, "...")\<close> on an error is an error that wraps its
  cause behind a text, as \<^verbatim>\<open>fmt.Errorf("...: %w", err)\<close> is: both are \<open>Wrapf\<close>.
  \<open>Errorf\<close> is an error made from a text alone, \<open>External\<close> whatever the file system,
  the HTTP client or an XML decoder reports, and \<open>NilDereference\<close> stands for the panic
  of reading through a nil pointer.
\<close>

datatype error =
    Errorf string
  | Wrapf string error
  | AtoiError NumError
  | HexError hex_error
  | External string
  | NilDereference

text \<open>
  What a call does besides returning is recorded, in order, as a list of events: the
  lines handed to the logger (level and fixed text, without arguments or line ends), the requests
  sent, the file read and the call of \<^verbatim>\<open>time.Sleep\<close> with its \<^verbatim>\<open>time.Duration\<close>, a
  signed count of nanoseconds in 64 bits.
\<close>

datatype level = Debug | Info | Warn

datatype event =
    Log level string
  | HttpGet string
  | HttpPostForm string "(string \<times> string) list"
  | FileRead string
  | Sleep int64

definition time_Second :: int64 where
  "time_Second = 1000000000"

text \<open>\<^verbatim>\<open>time.Sleep(d)\<close> pauses for \<open>d\<close>; a duration that is not positive returns at once.\<close>

definition suspended_ns :: "int64 \<Rightarrow> int" where
  "suspended_ns d = (if sint d \<le> 0 then 0 else sint d)"

record Rights =
  Names :: "string list"
  AccessLevels :: "string list"

record SessionInfo =
  Challenge :: string
  SID :: string
  BlockTime :: int64
  Rights :: Rights
  IsPBKDF2 :: bool

record LoginResponse =
  Challenge_r :: string
  BlockTime_r :: int64
  SID_r :: string

text \<open>
  Modelled from the spec: the repository's package \<^verbatim>\<open>config\<close> is not among the
  sources. The configuration is what the specification lists as consumed by the client
  (login endpoint URL, user name, password, certificate bundle path, verification flag),
  under the names the client reads it by; \<open>GetLoginURL\<close> is what the method of that
  name returns.
\<close>

record LoginCfg =
  Username :: string
  Password :: string

record PkiCfg =
  SkipTLSVerify :: bool
  CertificateFile :: string

record Config =
  cfg_Login :: LoginCfg
  cfg_Pki :: PkiCfg
  GetLoginURL :: string

text \<open>
  \<^verbatim>\<open>tls.Config\<close>, with the two fields the client sets. A certificate pool is the list of
  its certificates; \<open>None\<close> is the nil pool, for which the TLS library takes the trust
  store of the host.
\<close>

record tls_Config =
  InsecureSkipVerify :: bool
  RootCAs :: "string list option"

record Client =
  Config :: Config
  HTTPClient :: tls_Config
  SessionInfo :: "SessionInfo option"

text \<open>
  The collaborators of the client, taken as parameters: the file system, the PEM parser
  of \<^verbatim>\<open>crypto/x509\<close> (the certificates found in a file's bytes), the repository's
  configuration reader \<^verbatim>\<open>config.New\<close>, and the box at the other end.
  \<open>httpread_XML\<close> is the repository's \<^verbatim>\<open>httpread.XML\<close> on the GET of a URL: the
  \<^verbatim>\<open>SessionInfo\<close> it has filled and its error. \<open>PostForm\<close> gives a response whose
  body then reads or fails; \<open>xml_Unmarshal\<close> decodes such a body.
\<close>

record world =
  ReadFile :: "string \<Rightarrow> error + string"
  pem_certs :: "string \<Rightarrow> string list"
  config_New :: "string \<Rightarrow> error + Config"
  httpread_XML :: "string \<Rightarrow> SessionInfo \<times> error option"
  PostForm :: "string \<Rightarrow> (string \<times> string) list \<Rightarrow> error + (error + string)"
  xml_Unmarshal :: "string \<Rightarrow> error + LoginResponse"

subsection \<open>The two response algorithms\<close>

definition calculatePBKDF2Response :: "string \<Rightarrow> string \<Rightarrow> error + string" where
  "calculatePBKDF2Response challenge password =
     (let parts = strings_Split challenge (CHR ''$'') in
      if length parts < 5 then Inl (Errorf ''invalid PBKDF2 challenge format'')
      else
        (case strconv_Atoi (parts ! 1) of
           Inl err \<Rightarrow> Inl (Wrapf ''invalid iteration count'' (AtoiError err))
         | Inr iter1 \<Rightarrow>
        (case hex_DecodeString (parts ! 2) of
           Inl err \<Rightarrow> Inl (Wrapf ''invalid salt1'' (HexError err))
         | Inr salt1 \<Rightarrow>
        (case strconv_Atoi (parts ! 3) of
           Inl err \<Rightarrow> Inl (Wrapf ''invalid iteration count'' (AtoiError err))
         | Inr iter2 \<Rightarrow>
        (case hex_DecodeString (parts ! 4) of
           Inl err \<Rightarrow> Inl (Wrapf ''invalid salt2'' (HexError err))
         | Inr salt2 \<Rightarrow>
             (let hash1 = pbkdf2_Key (bytes_of password) salt1 iter1 sha256_Size;
                  hash2 = pbkdf2_Key hash1 salt2 iter2 sha256_Size
              in Inr (parts ! 4 @ ''$'' @ hex_EncodeToString hash2)))))))"

definition calculateMD5Response :: "string \<Rightarrow> string \<Rightarrow> string" where
  "calculateMD5Response challenge password =
     (let response = challenge @ ''-'' @ password;
          encoded = bytes_of response;
          hash = hex_EncodeToString (md5_Sum encoded)
      in challenge @ ''-'' @ hash)"

subsection \<open>Construction\<close>

definition buildCertPool :: "world \<Rightarrow> Config \<Rightarrow> string list option \<times> event list" where
  "buildCertPool w cfg =
     (if SkipTLSVerify (cfg_Pki cfg) then (None, [])
      else
        let path = CertificateFile (cfg_Pki cfg);
            ev = [Log Debug ''Reading certificate file'', FileRead path]
        in case ReadFile w path of
             Inl err \<Rightarrow>
               (None, ev @ [Log Debug ''Using host certificates as fallback. Reason: could not read certificate file: ''])
           | Inr caCert \<Rightarrow>
               if pem_certs w caCert = []
               then (None, ev @ [Log Warn ''Using host certificates as fallback. Reason: certificate file ''])
               else (Some (pem_certs w caCert), ev))"

definition tlsConfigFrom :: "world \<Rightarrow> Config \<Rightarrow> tls_Config \<times> event list" where
  "tlsConfigFrom w cfg =
     (case buildCertPool w cfg of
        (caCertPool, ev) \<Rightarrow>
          (\<lparr>InsecureSkipVerify = SkipTLSVerify (cfg_Pki cfg), RootCAs = caCertPool\<rparr>, ev))"

definition NewClientFromConfig :: "world \<Rightarrow> Config \<Rightarrow> Client \<times> event list" where
  "NewClientFromConfig w cfg =
     (case tlsConfigFrom w cfg of
        (tlsConfig, ev) \<Rightarrow> (\<lparr>Config = cfg, HTTPClient = tlsConfig, SessionInfo = None\<rparr>, ev))"

definition NewClient :: "world \<Rightarrow> string \<Rightarrow> (error + Client) \<times> event list" where
  "NewClient w configfile =
     (case config_New w configfile of
        Inl err \<Rightarrow> (Inl (Wrapf ''unable to read configuration'' err), [])
      | Inr cfg \<Rightarrow> (case NewClientFromConfig w cfg of (client, ev) \<Rightarrow> (Inr client, ev)))"

subsection \<open>Login\<close>

definition obtainChallenge :: "world \<Rightarrow> Client \<Rightarrow> (SessionInfo \<times> error option) \<times> event list" where
  "obtainChallenge w client =
     (let url = GetLoginURL (Config client) in
      case httpread_XML w url of
        (sessionInfo, err) \<Rightarrow>
          ((sessionInfo\<lparr>IsPBKDF2 := strings_HasPrefix (Challenge sessionInfo) ''2$''\<rparr>, err),
           [HttpGet url]))"

definition sendResponse :: "world \<Rightarrow> Client \<Rightarrow> string \<Rightarrow> (error + string) \<times> event list" where
  "sendResponse w client challengeResponse =
     (let formData = [(''username'', Username (cfg_Login (Config client))),
                      (''response'', challengeResponse)];
          url = GetLoginURL (Config client);
          ev = [HttpPostForm url formData]
      in case PostForm w url formData of
           Inl err \<Rightarrow> (Inl (Wrapf ''failed to send response'' err), ev)
         | Inr resp \<Rightarrow>
             (case resp of
                Inl err \<Rightarrow> (Inl (Wrapf ''failed to read response body'' err), ev)
              | Inr body \<Rightarrow>
                  (case xml_Unmarshal w body of
                     Inl err \<Rightarrow> (Inl (Wrapf ''failed to parse XML'' err), ev)
                   | Inr loginResp \<Rightarrow> (Inr (SID_r loginResp), ev))))"

text \<open>The error for a session id that is no session; it quotes the id it got.\<close>

definition not_solved :: "string \<Rightarrow> error" where
  "not_solved sid =
     Errorf (''challenge not solved, got '' @ [CHR 0x27] @ sid @ [CHR 0x27]
             @ '' as session id, check login data'')"

text \<open>
  \<^verbatim>\<open>solveChallenge\<close> changes the client it is called on, so the client comes back with
  the result, also when the result is an error.
\<close>

definition solveChallenge :: "world \<Rightarrow> Client \<Rightarrow> error option \<times> Client \<times> event list" where
  "solveChallenge w client =
     (case SessionInfo client of
        None \<Rightarrow> (Some NilDereference, client, [])
      | Some si \<Rightarrow>
          (case (if IsPBKDF2 si
                 then ((case calculatePBKDF2Response (Challenge si) (Password (cfg_Login (Config client))) of
                          Inl err \<Rightarrow> Inl (Wrapf ''failed to calculate PBKDF2 response'' err)
                        | Inr r \<Rightarrow> Inr r),
                       [Log Debug ''PBKDF2 supported''])
                 else (Inr (calculateMD5Response (Challenge si) (Password (cfg_Login (Config client)))),
                       [Log Debug ''Falling back to MD5''])) of
             (Inl err, ev1) \<Rightarrow> (Some err, client, ev1)
           | (Inr challengeResponse, ev1) \<Rightarrow>
               (let ev2 = (if 0 < sint (BlockTime si)
                           then [Log Info ''Waiting for %d seconds...'',
                                 Sleep (BlockTime si * time_Second)]
                           else [])
                in (case sendResponse w client challengeResponse of
                      (Inl err, ev3) \<Rightarrow>
                        (Some (Wrapf ''failed to login'' err), client, ev1 @ ev2 @ ev3)
                    | (Inr sid, ev3) \<Rightarrow>
                        (let client' = client\<lparr>SessionInfo := Some (si\<lparr>SID := sid\<rparr>)\<rparr>
                         in if sid = ''0000000000000000'' \<or> sid = []
                            then (Some (not_solved sid), client', ev1 @ ev2 @ ev3)
                            else (None, client', ev1 @ ev2 @ ev3))))))"

definition Login :: "world \<Rightarrow> Client \<Rightarrow> error option \<times> Client \<times> event list" where
  "Login w client =
     (case obtainChallenge w client of
        ((sessionInfo, Some err), ev) \<Rightarrow>
          (Some (Wrapf ''unable to obtain login challenge'' err), client, ev)
      | ((sessionInfo, None), ev) \<Rightarrow>
          let client1 = client\<lparr>SessionInfo := Some sessionInfo\<rparr>;
              ev1 = ev @ [Log Debug ''FRITZ!Box challenge is'']
          in (case solveChallenge w client1 of
                (Some err, client2, ev2) \<Rightarrow>
                  (Some (Wrapf ''unable to solve login challenge'' err), client2, ev1 @ ev2)
              | (None, client2, ev2) \<Rightarrow>
                  (None, client2, ev1 @ ev2 @ [Log Info ''Login successful''])))"

section \<open>Notions of the specification\<close>

text \<open>The part of a text before its first separator, and the part after it.\<close>

definition before_first :: "char \<Rightarrow> string \<Rightarrow> string" where
  "before_first sep s = takeWhile (\<lambda>c. c \<noteq> sep) s"

definition after_first :: "char \<Rightarrow> string \<Rightarrow> string" where
  "after_first sep s = drop 1 (dropWhile (\<lambda>c. c \<noteq> sep) s)"

text \<open>Valid hex: an even number of digits, each one of \<^verbatim>\<open>0-9\<close>, \<^verbatim>\<open>a-f\<close>, \<^verbatim>\<open>A-F\<close>.\<close>

definition valid_hex :: "string \<Rightarrow> bool" where
  "valid_hex s = (even (length s) \<and> list_all (\<lambda>c. c \<in> set ''0123456789abcdefABCDEF'') s)"

text \<open>A hex digit in lower case; every other byte stays.\<close>

definition hex_lower :: "char \<Rightarrow> char" where
  "hex_lower c = (case map_of (zip ''ABCDEF'' ''abcdef'') c of Some l \<Rightarrow> l | None \<Rightarrow> c)"

text \<open>
  A decodable integer: an optional sign, then at least one decimal digit and nothing
  else, with a value that a 64-bit \<^verbatim>\<open>int\<close> holds.
\<close>

definition decimal_value :: "string \<Rightarrow> int" where
  "decimal_value ds = foldl (\<lambda>n c. n * 10 + digitVal c) 0 ds"

definition unsigned_part :: "string \<Rightarrow> string" where
  "unsigned_part s = (if s \<noteq> [] \<and> (hd s = CHR ''+'' \<or> hd s = CHR ''-'') then tl s else s)"

definition signed_value :: "string \<Rightarrow> int" where
  "signed_value s =
     (if s \<noteq> [] \<and> hd s = CHR ''-'' then - decimal_value (unsigned_part s)
      else decimal_value (unsigned_part s))"

definition decodable_int :: "string \<Rightarrow> bool" where
  "decodable_int s =
     (unsigned_part s \<noteq> [] \<and> list_all (\<lambda>c. c \<in> set ''0123456789'') (unsigned_part s)
      \<and> - (2 ^ 63) \<le> signed_value s \<and> signed_value s < 2 ^ 63)"

text \<open>
  The errors of the specification's taxonomy that the model tells apart by their text:
  a malformed modern challenge is what the response computation reports, a rejected
  authentication is the error for a session id that is no session.
\<close>

fun MalformedChallenge :: "error \<Rightarrow> bool" where
  "MalformedChallenge (Errorf m) = (m = ''invalid PBKDF2 challenge format'')"
| "MalformedChallenge (Wrapf m (AtoiError e)) = (m = ''invalid iteration count'')"
| "MalformedChallenge (Wrapf m (HexError e)) = (m = ''invalid salt1'' \<or> m = ''invalid salt2'')"
| "MalformedChallenge e = False"

definition AuthenticationRejected :: "error \<Rightarrow> string \<Rightarrow> bool" where
  "AuthenticationRejected e sid = (e = not_solved sid)"

text \<open>The durations handed to \<^verbatim>\<open>time.Sleep\<close>, in order, and the time they add up to.\<close>

fun sleeps :: "event list \<Rightarrow> int64 list" where
  "sleeps [] = []"
| "sleeps (Sleep d # ev) = d # sleeps ev"
| "sleeps (e # ev) = sleeps ev"

definition suspension_ns :: "event list \<Rightarrow> int" where
  "suspension_ns ev = sum_list (map suspended_ns (sleeps ev))"

fun posts :: "event list \<Rightarrow> (string \<times> (string \<times> string) list) list" where
  "posts [] = []"
| "posts (HttpPostForm url form # ev) = (url, form) # posts ev"
| "posts (e # ev) = posts ev"

fun file_reads :: "event list \<Rightarrow> string list" where
  "file_reads [] = []"
| "file_reads (FileRead path # ev) = path # file_reads ev"
| "file_reads (e # ev) = file_reads ev"

subsection \<open>A box and a client to try the theorems on\<close>

text \<open>
  A world with one file, \<^verbatim>\<open>/etc/fritz.pem\<close>, of content \<open>pem\<close>, in which a file that
  starts with the PEM header holds one certificate, and a box that hands out the session
  info \<open>si\<close> and answers every submission with the session id \<open>sid\<close>.
\<close>

definition box :: "string \<Rightarrow> SessionInfo \<Rightarrow> string \<Rightarrow> world" where
  "box pem si sid =
     \<lparr>ReadFile = (\<lambda>path. if path = ''/etc/fritz.pem'' then Inr pem
                          else Inl (External ''no such file or directory'')),
      pem_certs = (\<lambda>data. if take 10 data = ''-----BEGIN'' then [data] else []),
      config_New = (\<lambda>file. Inl (External ''no such file or directory'')),
      httpread_XML = (\<lambda>url. (si, None)),
      PostForm = (\<lambda>url form. Inr (Inr ''<SessionInfo/>'')),
      xml_Unmarshal = (\<lambda>body. Inr \<lparr>Challenge_r = Challenge si, BlockTime_r = 0, SID_r = sid\<rparr>)\<rparr>"

definition session :: "string \<Rightarrow> int64 \<Rightarrow> SessionInfo" where
  "session c bt =
     \<lparr>Challenge = c, SID = ''0000000000000000'', BlockTime = bt,
      Rights = \<lparr>Names = [], AccessLevels = []\<rparr>, IsPBKDF2 = False\<rparr>"

definition config :: "bool \<Rightarrow> string \<Rightarrow> Config" where
  "config skip path =
     \<lparr>cfg_Login = \<lparr>Username = ''admin'', Password = ''secret''\<rparr>,
      cfg_Pki = \<lparr>SkipTLSVerify = skip, CertificateFile = path\<rparr>,
      GetLoginURL = ''https://fritz.box/login_sid.lua?version=2''\<rparr>"

definition new_client :: Client where
  "new_client =
     \<lparr>Config = config True [],
      HTTPClient = \<lparr>InsecureSkipVerify = True, RootCAs = None\<rparr>,
      SessionInfo = None\<rparr>"

section \<open>Facts about the library functions\<close>

subsection \<open>Lengths and alphabets\<close>

lemma length_hex_EncodeToString: "length (hex_EncodeToString bs) = 2 * length bs"
  by (induction bs) (simp_all add: hex_EncodeToString_def)

lemma nibble_hi: "unat (drop_bit 4 (v :: byte)) < 16"
proof -
  have "unat (drop_bit 4 v) = unat v div 16"
    unfolding unat_drop_bit_eq by (simp add: drop_bit_eq_div)
  moreover have "unat v < 256" using unsigned_less [of v, where ?'a = nat] by simp
  ultimately show ?thesis by simp
qed

lemma nibble_lo: "unat ((v :: byte) AND 0x0f) < 16"
proof -
  have "unat (v AND 15) \<le> unat (15 :: byte)"
    by (rule word_and_le1 [THEN word_le_nat_alt [THEN iffD1]])
  then show ?thesis by simp
qed

lemma hextable_nth: "n < 16 \<Longrightarrow> hextable ! n \<in> set ''0123456789abcdef''"
proof -
  assume "n < 16"
  then have "n < length hextable" by (simp add: hextable_def)
  then have "hextable ! n \<in> set hextable" by (rule nth_mem)
  then show ?thesis by (simp only: hextable_def)
qed

lemma set_hex_EncodeToString: "set (hex_EncodeToString bs) \<subseteq> set ''0123456789abcdef''"
  using hextable_nth nibble_hi nibble_lo
  by (induction bs) (simp_all add: hex_EncodeToString_def)

lemma length_sha256_Sum256: "length (sha256_Sum256 m) = 32"
  by (simp add: sha256_Sum256_def be_bytes32_def split: prod.split)

lemma length_md5_Sum: "length (md5_Sum m) = 16"
  by (simp add: md5_Sum_def le_bytes32_def split: prod.split)

lemma length_hmac_sha256: "length (hmac_sha256 k m) = 32"
  by (simp add: hmac_sha256_def Let_def length_sha256_Sum256)

lemma length_pbkdf2_rounds: "length T = 32 \<Longrightarrow> length (pbkdf2_rounds k pw U T) = 32"
  by (induction k arbitrary: U T) (simp_all add: Let_def length_hmac_sha256)

lemma length_pbkdf2_T: "length (pbkdf2_T pw salt iter block) = 32"
  by (simp add: pbkdf2_T_def Let_def length_pbkdf2_rounds length_hmac_sha256)

lemma length_concat_blocks: "length (concat (map (pbkdf2_T pw salt iter) bs)) = 32 * length bs"
  by (induction bs) (simp_all add: length_pbkdf2_T)

lemma length_pbkdf2_Key: "length (pbkdf2_Key pw salt iter n) = n"
proof -
  have "n \<le> 32 * ((n + 31) div 32)" by arith
  moreover have "n = 0 \<or> Suc 0 \<le> (31 + n) div 32" by arith
  ultimately show ?thesis
    by (auto simp add: pbkdf2_Key_def Let_def sha256_Size_def length_concat_blocks)
qed

lemma Split_no_sep: "p \<in> set (strings_Split s sep) \<Longrightarrow> sep \<notin> set p"
  by (induction s arbitrary: p) (auto split: list.splits if_splits)

subsection \<open>The hex digits, one by one\<close>

lemma of_char_hex_digit:
  "(of_char c :: nat) = 48 \<Longrightarrow> c = CHR ''0''"
  "(of_char c :: nat) = 49 \<Longrightarrow> c = CHR ''1''"
  "(of_char c :: nat) = 50 \<Longrightarrow> c = CHR ''2''"
  "(of_char c :: nat) = 51 \<Longrightarrow> c = CHR ''3''"
  "(of_char c :: nat) = 52 \<Longrightarrow> c = CHR ''4''"
  "(of_char c :: nat) = 53 \<Longrightarrow> c = CHR ''5''"
  "(of_char c :: nat) = 54 \<Longrightarrow> c = CHR ''6''"
  "(of_char c :: nat) = 55 \<Longrightarrow> c = CHR ''7''"
  "(of_char c :: nat) = 56 \<Longrightarrow> c = CHR ''8''"
  "(of_char c :: nat) = 57 \<Longrightarrow> c = CHR ''9''"
  "(of_char c :: nat) = 97 \<Longrightarrow> c = CHR ''a''"
  "(of_char c :: nat) = 98 \<Longrightarrow> c = CHR ''b''"
  "(of_char c :: nat) = 99 \<Longrightarrow> c = CHR ''c''"
  "(of_char c :: nat) = 100 \<Longrightarrow> c = CHR ''d''"
  "(of_char c :: nat) = 101 \<Longrightarrow> c = CHR ''e''"
  "(of_char c :: nat) = 102 \<Longrightarrow> c = CHR ''f''"
  "(of_char c :: nat) = 65 \<Longrightarrow> c = CHR ''A''"
  "(of_char c :: nat) = 66 \<Longrightarrow> c = CHR ''B''"
  "(of_char c :: nat) = 67 \<Longrightarrow> c = CHR ''C''"
  "(of_char c :: nat) = 68 \<Longrightarrow> c = CHR ''D''"
  "(of_char c :: nat) = 69 \<Longrightarrow> c = CHR ''E''"
  "(of_char c :: nat) = 70 \<Longrightarrow> c = CHR ''F''"
  by (rule of_char_eqI [where ?'a = nat], simp)+




lemma digit_range: "48 \<le> (n::nat) \<Longrightarrow> n \<le> 57 \<Longrightarrow> n = 48 \<or> n = 49 \<or> n = 50 \<or> n = 51 \<or> n = 52 \<or> n = 53 \<or> n = 54 \<or> n = 55 \<or> n = 56 \<or> n = 57"
  by arith

lemma lower_range: "97 \<le> (n::nat) \<Longrightarrow> n \<le> 102 \<Longrightarrow> n = 97 \<or> n = 98 \<or> n = 99 \<or> n = 100 \<or> n = 101 \<or> n = 102"
  by arith

lemma upper_range: "65 \<le> (n::nat) \<Longrightarrow> n \<le> 70 \<Longrightarrow> n = 65 \<or> n = 66 \<or> n = 67 \<or> n = 68 \<or> n = 69 \<or> n = 70"
  by arith

lemma isDigit_D: assumes "isDigit c" shows "c \<in> set ''0123456789''"
proof -
  from assms have "48 \<le> (of_char c :: nat)" "(of_char c :: nat) \<le> 57"
    by (simp_all add: isDigit_def)
  from digit_range [OF this] show ?thesis
    by (elim disjE) (drule of_char_hex_digit, simp)+
qed

lemma isDigit_I: "c \<in> set ''0123456789'' \<Longrightarrow> isDigit c"
  by (auto simp: isDigit_def)

lemma fromHexChar_None: "\<not> (48 \<le> (of_char c :: nat) \<and> (of_char c :: nat) \<le> 57) \<Longrightarrow>
    \<not> (97 \<le> (of_char c :: nat) \<and> (of_char c :: nat) \<le> 102) \<Longrightarrow>
    \<not> (65 \<le> (of_char c :: nat) \<and> (of_char c :: nat) \<le> 70) \<Longrightarrow> fromHexChar c = None"
  unfolding fromHexChar_def Let_def by (simp only: if_False)

lemma fromHexChar_D: assumes "fromHexChar c = Some v" shows "c \<in> set ''0123456789abcdefABCDEF''"
proof -
  consider "48 \<le> (of_char c :: nat)" "(of_char c :: nat) \<le> 57"
    | "97 \<le> (of_char c :: nat)" "(of_char c :: nat) \<le> 102"
    | "65 \<le> (of_char c :: nat)"  "(of_char c :: nat) \<le> 70"
    using assms fromHexChar_None [of c] by fastforce
  then show ?thesis
  proof cases
    case 1
    from digit_range [OF this] show ?thesis
      by (elim disjE) (drule of_char_hex_digit, simp)+
  next
    case 2
    from lower_range [OF this] show ?thesis
      by (elim disjE) (drule of_char_hex_digit, simp)+
  next
    case 3
    from upper_range [OF this] show ?thesis
      by (elim disjE) (drule of_char_hex_digit, simp)+
  qed
qed

lemma fromHexChar_I: "c \<in> set ''0123456789abcdefABCDEF'' \<Longrightarrow> \<exists>v. fromHexChar c = Some v"
  by (auto simp: fromHexChar_def)

subsection \<open>What \<^verbatim>\<open>hex.DecodeString\<close> accepts\<close>

lemma fromHexChar_Some_iff: "(\<exists>v. fromHexChar c = Some v) \<longleftrightarrow> c \<in> set ''0123456789abcdefABCDEF''"
  using fromHexChar_D fromHexChar_I by blast

lemma hex_DecodeString_iff: "(\<exists>bs. hex_DecodeString s = Inr bs) \<longleftrightarrow> valid_hex s"
proof (induction s rule: hex_DecodeString.induct)
  case 1
  show ?case by (simp add: valid_hex_def)
next
  case (2 p)
  show ?case by (simp add: valid_hex_def split: option.splits)
next
  case (3 p q rest)
  show ?case
  proof (cases "fromHexChar p")
    case None
    then have "p \<notin> set ''0123456789abcdefABCDEF''" using fromHexChar_Some_iff [of p] by simp
    with None show ?thesis by (simp add: valid_hex_def)
  next
    case (Some a)
    then have p: "p \<in> set ''0123456789abcdefABCDEF''" using fromHexChar_Some_iff [of p] by blast
    show ?thesis
    proof (cases "fromHexChar q")
      case None
      then have "q \<notin> set ''0123456789abcdefABCDEF''" using fromHexChar_Some_iff [of q] by simp
      with None Some show ?thesis by (simp add: valid_hex_def)
    next
      case (Some b)
      then have q: "q \<in> set ''0123456789abcdefABCDEF''" using fromHexChar_Some_iff [of q] by blast
      have "valid_hex (p # q # rest) = valid_hex rest"
        using p q by (simp add: valid_hex_def)
      with 3 [OF \<open>fromHexChar p = Some a\<close> Some] \<open>fromHexChar p = Some a\<close> Some show ?thesis
        by (auto split: sum.splits)
    qed
  qed
qed

subsection \<open>Encoding what was decoded\<close>

lemma nib_lt: "(a :: byte) < 16 \<Longrightarrow> take_bit 4 a = a"
proof -
  assume "a < 16"
  then have "a < 2 ^ 4" by simp
  then have "a AND mask 4 = a" by (rule less_mask_eq)
  then show ?thesis by (simp add: take_bit_eq_mask)
qed

lemma nib_and: "(x :: byte) AND 15 = take_bit 4 x"
  using take_bit_eq_mask [of 4 x] by (simp add: mask_eq_exp_minus_1)

lemma join_hi: fixes a b :: byte assumes "a < 16" "b < 16"
  shows "drop_bit 4 (push_bit 4 a OR b) = a"
proof -
  have a: "take_bit 4 a = a" and b: "take_bit 4 b = b" using assms by (simp_all add: nib_lt)
  have "drop_bit 4 (push_bit 4 a OR b) = drop_bit 4 (push_bit 4 (take_bit 4 a) OR take_bit 4 b)"
    by (simp add: a b)
  also have "\<dots> = take_bit 4 a"
    by (rule bit_word_eqI) (auto simp: bit_simps)
  finally show ?thesis by (simp add: a)
qed

lemma join_lo: fixes a b :: byte assumes "b < 16"
  shows "(push_bit 4 a OR b) AND 15 = b"
proof -
  have b: "take_bit 4 b = b" using assms by (simp add: nib_lt)
  have "(push_bit 4 a OR b) AND 15 = take_bit 4 (push_bit 4 a OR take_bit 4 b)"
    by (simp add: nib_and b)
  also have "\<dots> = take_bit 4 b"
    by (rule bit_word_eqI) (auto simp: bit_simps)
  finally show ?thesis by (simp add: b)
qed


lemma fromHexChar_table:
  "map fromHexChar ''0123456789abcdefABCDEF'' =
     map Some [0, 1, 2, 3, 4, 5, 6, 7, 8, 9, 10, 11, 12, 13, 14, 15, 10, 11, 12, 13, 14, 15]"
  by (simp add: fromHexChar_def)

lemma fromHexChar_nibble:
  assumes "fromHexChar p = Some a"
  shows "a < 16 \<and> hextable ! unat a = hex_lower p"
proof -
  from assms have "p \<in> set ''0123456789abcdefABCDEF''" by (rule fromHexChar_D)
  then have "p = CHR ''0'' \<or> p = CHR ''1'' \<or> p = CHR ''2'' \<or> p = CHR ''3'' \<or> p = CHR ''4''
      \<or> p = CHR ''5'' \<or> p = CHR ''6'' \<or> p = CHR ''7'' \<or> p = CHR ''8'' \<or> p = CHR ''9''
      \<or> p = CHR ''a'' \<or> p = CHR ''b'' \<or> p = CHR ''c'' \<or> p = CHR ''d'' \<or> p = CHR ''e''
      \<or> p = CHR ''f'' \<or> p = CHR ''A'' \<or> p = CHR ''B'' \<or> p = CHR ''C'' \<or> p = CHR ''D''
      \<or> p = CHR ''E'' \<or> p = CHR ''F''"
    by simp
  then show ?thesis using assms fromHexChar_table
    by (elim disjE) (simp_all add: hextable_def hex_lower_def)
qed


lemma hex_roundtrip:
  "hex_DecodeString s = Inr bs \<Longrightarrow> hex_EncodeToString bs = map hex_lower s"
proof (induction s arbitrary: bs rule: hex_DecodeString.induct)
  case 1
  then show ?case by (simp add: hex_EncodeToString_def)
next
  case (2 p)
  then show ?case by (simp split: option.splits)
next
  case (3 p q rest)
  from "3.prems" obtain a b bs' where
    a: "fromHexChar p = Some a" and b: "fromHexChar q = Some b"
    and r: "hex_DecodeString rest = Inr bs'" and bs: "bs = (push_bit 4 a OR b) # bs'"
    by (auto split: option.splits sum.splits)
  from "3.IH" [OF a b r] have IH: "hex_EncodeToString bs' = map hex_lower rest" .
  from fromHexChar_nibble [OF a] have a16: "a < 16" and ha: "hextable ! unat a = hex_lower p"
    by simp_all
  from fromHexChar_nibble [OF b] have b16: "b < 16" and hb: "hextable ! unat b = hex_lower q"
    by simp_all
  have "hex_EncodeToString bs =
      [hextable ! unat (drop_bit 4 (push_bit 4 a OR b)), hextable ! unat ((push_bit 4 a OR b) AND 15)]
      @ hex_EncodeToString bs'"
    unfolding bs hex_EncodeToString_def by simp
  also have "\<dots> = [hex_lower p, hex_lower q] @ map hex_lower rest"
    unfolding join_hi [OF a16 b16] join_lo [OF b16] ha hb IH ..
  finally show ?case by simp
qed

lemma hex_lower_id: "c \<notin> set ''ABCDEF'' \<Longrightarrow> hex_lower c = c"
  by (simp add: hex_lower_def)

lemma hex_lower_neq: "c \<in> set ''ABCDEF'' \<Longrightarrow> hex_lower c \<noteq> c"
  by (elim disjE | simp add: hex_lower_def)+

lemma map_hex_lower_eq: "map hex_lower s = s \<longleftrightarrow> (\<forall>c \<in> set s. c \<notin> set ''ABCDEF'')"
proof (induction s)
  case Nil
  show ?case by simp
next
  case (Cons c s)
  have "hex_lower c = c \<longleftrightarrow> c \<notin> set ''ABCDEF''"
    using hex_lower_id [of c] hex_lower_neq [of c] by blast
  with Cons show ?case by simp
qed

subsection \<open>What \<^verbatim>\<open>strconv.Atoi\<close> accepts\<close>

lemma isDigit_iff: "isDigit c \<longleftrightarrow> c \<in> set ''0123456789''"
  using isDigit_D isDigit_I by blast

lemma digitVal_range: assumes "isDigit c" shows "0 \<le> digitVal c \<and> digitVal c \<le> 9"
proof -
  have "(of_char c :: int) = int (of_char c)" by (simp add: of_nat_of_char)
  with assms show ?thesis by (simp add: isDigit_def digitVal_def)
qed

lemma decimal_mono:
  "list_all isDigit cs \<Longrightarrow> 0 \<le> n \<Longrightarrow> n \<le> foldl (\<lambda>n c. n * 10 + digitVal c) n cs"
proof (induction cs arbitrary: n)
  case Nil
  show ?case by simp
next
  case (Cons c cs)
  from Cons.prems have d: "0 \<le> digitVal c" using digitVal_range [of c] by simp
  with Cons.prems have "n \<le> n * 10 + digitVal c" by simp
  moreover from Cons.prems d have "n * 10 + digitVal c \<le> foldl (\<lambda>n c. n * 10 + digitVal c) (n * 10 + digitVal c) cs"
    by (intro Cons.IH) simp_all
  ultimately show ?case by simp
qed

lemma ParseUint_loop_Inr:
  "0 \<le> n \<Longrightarrow> n \<le> maxUint64 \<Longrightarrow>
   ParseUint_loop n cs = Inr m \<longleftrightarrow>
     list_all isDigit cs \<and> foldl (\<lambda>n c. n * 10 + digitVal c) n cs \<le> maxUint64
     \<and> m = foldl (\<lambda>n c. n * 10 + digitVal c) n cs"
proof (induction cs arbitrary: n)
  case Nil
  then show ?case by auto
next
  case (Cons c cs)
  show ?case
  proof (cases "isDigit c")
    case False
    then show ?thesis by simp
  next
    case True
    then have d: "0 \<le> digitVal c" using digitVal_range [of c] by simp
    with Cons.prems have n': "0 \<le> n * 10 + digitVal c" by simp
    show ?thesis
    proof (cases "n * 10 + digitVal c > maxUint64")
      case over: True
      have "list_all isDigit cs \<Longrightarrow> \<not> foldl (\<lambda>n c. n * 10 + digitVal c) (n * 10 + digitVal c) cs \<le> maxUint64"
        using decimal_mono [of cs "n * 10 + digitVal c"] n' over by simp
      with True over show ?thesis by auto
    next
      case False
      then have "n * 10 + digitVal c \<le> maxUint64" by simp
      from Cons.IH [OF n' this] True False show ?thesis by simp
    qed
  qed
qed

lemma strconv_ParseUint_Inr:
  "strconv_ParseUint s = Inr m \<longleftrightarrow>
     s \<noteq> [] \<and> list_all isDigit s \<and> decimal_value s \<le> maxUint64 \<and> m = decimal_value s"
  using ParseUint_loop_Inr [of 0 s m]
  by (simp add: strconv_ParseUint_def decimal_value_def maxUint64_def)

lemma decimal_value_nonneg: "list_all isDigit s \<Longrightarrow> 0 \<le> decimal_value s"
  using decimal_mono [of s 0] by (simp add: decimal_value_def)

lemma strconv_Atoi_Inr:
  "strconv_Atoi s = Inr v \<longleftrightarrow> decodable_int s \<and> v = signed_value s"
proof (cases s)
  case Nil
  then show ?thesis by (simp add: strconv_Atoi_def decodable_int_def unsigned_part_def)
next
  case (Cons c cs)
  define u where "u = unsigned_part s"
  have digs: "list_all (\<lambda>c. c \<in> set ''0123456789'') u = list_all isDigit u"
    by (simp add: isDigit_iff [abs_def])
  have sv: "signed_value s = (if c = CHR ''-'' then - decimal_value u else decimal_value u)"
    using Cons by (simp add: signed_value_def u_def)
  have atoi: "strconv_Atoi s =
      (case strconv_ParseUint u of
         Inl e \<Rightarrow> Inl e
       | Inr un \<Rightarrow>
           if c \<noteq> CHR ''-'' \<and> un \<ge> 2 ^ 63 then Inl ErrRange
           else if c = CHR ''-'' \<and> un > 2 ^ 63 then Inl ErrRange
           else Inr (if c = CHR ''-'' then - un else un))"
    using Cons by (simp add: strconv_Atoi_def u_def unsigned_part_def Let_def)
  show ?thesis
  proof (cases "strconv_ParseUint u")
    case (Inl e)
    then have "\<not> (u \<noteq> [] \<and> list_all isDigit u \<and> decimal_value u \<le> maxUint64)"
      using strconv_ParseUint_Inr [of u "decimal_value u"] by auto
    moreover have "list_all isDigit u \<Longrightarrow> \<not> decimal_value u \<le> maxUint64 \<Longrightarrow>
        \<not> (- (2 ^ 63) \<le> signed_value s \<and> signed_value s < 2 ^ 63)"
      using decimal_value_nonneg [of u] by (auto simp: sv maxUint64_def)
    ultimately have "\<not> decodable_int s"
      unfolding decodable_int_def u_def [symmetric] digs by blast
    with Inl atoi show ?thesis by simp
  next
    case (Inr un)
    then have u: "u \<noteq> []" "list_all isDigit u" "decimal_value u \<le> maxUint64" "un = decimal_value u"
      using strconv_ParseUint_Inr [of u un] by simp_all
    from u have nn: "0 \<le> un" using decimal_value_nonneg [of u] by simp
    have "decodable_int s \<longleftrightarrow> - (2 ^ 63) \<le> signed_value s \<and> signed_value s < 2 ^ 63"
      unfolding decodable_int_def u_def [symmetric] digs using u by simp
    with Inr atoi nn u(4) show ?thesis by (auto simp: sv)
  qed
qed

lemma strconv_Atoi_iff: "(\<exists>v. strconv_Atoi s = Inr v) \<longleftrightarrow> decodable_int s"
  by (simp add: strconv_Atoi_Inr)

subsection \<open>Texts around a separator, bytes of a text\<close>

lemma before_first_append: "sep \<notin> set f \<Longrightarrow> before_first sep (f @ sep # h) = f"
  by (induction f) (auto simp: before_first_def)

lemma after_first_append: "sep \<notin> set f \<Longrightarrow> after_first sep (f @ sep # h) = h"
  by (induction f) (auto simp: after_first_def)

lemma string_of_bytes_of: "string_of (bytes_of s) = s"
proof -
  have "char_of (unat (word_of_nat (of_char c) :: byte)) = c" for c
    by (simp add: unat_of_nat)
  then show ?thesis by (simp add: string_of_def bytes_of_def comp_def)
qed

text \<open>
  The models of the hash functions, run on test vectors: the MD5 digest of the legacy
  example of the specification, and the SHA-256 digest of \<^verbatim>\<open>abc\<close>.
\<close>

lemma md5_test_vector:
  "hex_EncodeToString (md5_Sum (bytes_of ''1234567890abcdef-pw'')) = ''80567cebdd989d277bef8da1d5fe2de9''"
  by code_simp

lemma sha256_test_vector:
  "hex_EncodeToString (sha256_Sum256 (bytes_of ''abc'')) =
     ''ba7816bf8f01cfea414140de5dae2223b00361a396177a9cb410ff61f20015ad''"
  by code_simp

lemma PBKDF2_wellformed:
  assumes "strings_Split challenge (CHR ''$'') = p0 # f_iter1 # f_salt1 # f_iter2 # f_salt2 # extra"
      and "strconv_Atoi f_iter1 = Inr iter1"
      and "hex_DecodeString f_salt1 = Inr salt1"
      and "strconv_Atoi f_iter2 = Inr iter2"
      and "hex_DecodeString f_salt2 = Inr salt2"
  shows "calculatePBKDF2Response challenge password =
           Inr (f_salt2 @ ''$'' @ hex_EncodeToString
                  (pbkdf2_Key (pbkdf2_Key (bytes_of password) salt1 iter1 32) salt2 iter2 32))"
  using assms by (simp add: calculatePBKDF2Response_def sha256_Size_def)

section \<open>The steps of the client, unfolded\<close>

lemma sendResponse_events:
  "snd (sendResponse w client r) =
     [HttpPostForm (GetLoginURL (Config client))
        [(''username'', Username (cfg_Login (Config client))), (''response'', r)]]"
  by (simp add: sendResponse_def Let_def split: sum.splits)

lemma sendResponse_SessionInfo:
  "sendResponse w (client\<lparr>SessionInfo := x\<rparr>) r = sendResponse w client r"
  by (simp add: sendResponse_def)

lemma solveChallenge_malformed:
  assumes "SessionInfo client = Some si" and "IsPBKDF2 si"
      and "calculatePBKDF2Response (Challenge si) (Password (cfg_Login (Config client))) = Inl e"
  shows "solveChallenge w client =
           (Some (Wrapf ''failed to calculate PBKDF2 response'' e), client,
            [Log Debug ''PBKDF2 supported''])"
  using assms by (simp add: solveChallenge_def)

lemma solveChallenge_submitted:
  assumes "SessionInfo client = Some si"
      and "(if IsPBKDF2 si
            then calculatePBKDF2Response (Challenge si) (Password (cfg_Login (Config client)))
            else Inr (calculateMD5Response (Challenge si) (Password (cfg_Login (Config client))))) = Inr r"
  shows "solveChallenge w client =
     (case fst (sendResponse w client r) of
        Inl err \<Rightarrow> Some (Wrapf ''failed to login'' err)
      | Inr sid \<Rightarrow> if sid = ''0000000000000000'' \<or> sid = [] then Some (not_solved sid) else None,
      case fst (sendResponse w client r) of
        Inl err \<Rightarrow> client
      | Inr sid \<Rightarrow> client\<lparr>SessionInfo := Some (si\<lparr>SID := sid\<rparr>)\<rparr>,
      [Log Debug (if IsPBKDF2 si then ''PBKDF2 supported'' else ''Falling back to MD5'')]
      @ (if 0 < sint (BlockTime si)
         then [Log Info ''Waiting for %d seconds...'', Sleep (BlockTime si * time_Second)]
         else [])
      @ [HttpPostForm (GetLoginURL (Config client))
           [(''username'', Username (cfg_Login (Config client))), (''response'', r)]])"
proof -
  obtain res ev where sr: "sendResponse w client r = (res, ev)" by (cases "sendResponse w client r")
  with sendResponse_events [of w client r]
  have ev: "ev = [HttpPostForm (GetLoginURL (Config client))
        [(''username'', Username (cfg_Login (Config client))), (''response'', r)]]" by simp
  show ?thesis
  proof (cases "IsPBKDF2 si")
    case True
    with assms sr ev show ?thesis
      by (cases res) (simp_all add: solveChallenge_def Let_def)
  next
    case False
    with assms sr ev show ?thesis
      by (cases res) (simp_all add: solveChallenge_def Let_def)
  qed
qed

lemma Login_obtained:
  assumes "httpread_XML w (GetLoginURL (Config client)) = (si, None)"
  shows "Login w client =
     (case solveChallenge w
             (client\<lparr>SessionInfo := Some (si\<lparr>IsPBKDF2 := strings_HasPrefix (Challenge si) ''2$''\<rparr>)\<rparr>) of
        (Some err, client2, ev2) \<Rightarrow>
          (Some (Wrapf ''unable to solve login challenge'' err), client2,
           [HttpGet (GetLoginURL (Config client)), Log Debug ''FRITZ!Box challenge is''] @ ev2)
      | (None, client2, ev2) \<Rightarrow>
          (None, client2,
           [HttpGet (GetLoginURL (Config client)), Log Debug ''FRITZ!Box challenge is''] @ ev2
           @ [Log Info ''Login successful'']))"
  using assms by (simp add: Login_def obtainChallenge_def Let_def split: prod.splits option.splits)

lemma HasPrefix_2dollar: "strings_HasPrefix c ''2$'' \<longleftrightarrow> take 2 c = ''2$''"
proof -
  have "take 2 c = ''2$'' \<Longrightarrow> 2 \<le> length c"
  proof -
    assume "take 2 c = ''2$''"
    then have "length (take 2 c) = 2" by simp
    then show "2 \<le> length c" by simp
  qed
  moreover have "length ''2$'' = 2" by simp
  ultimately show ?thesis unfolding strings_HasPrefix_def by metis
qed

section \<open>The response algorithms\<close>

subsection \<open>The challenge of the specification, decoded\<close>

lemma Split_example:
  "strings_Split ''2$10000$5A1B$10000$7C3D'' (CHR ''$'') = [''2'', ''10000'', ''5A1B'', ''10000'', ''7C3D'']"
  by simp

lemma Atoi_10000: "strconv_Atoi ''10000'' = Inr 10000"
  by (simp add: strconv_Atoi_def strconv_ParseUint_def isDigit_def digitVal_def maxUint64_def)

lemma Decode_5A1B: "hex_DecodeString ''5A1B'' = Inr [0x5A, 0x1B]"
  by (simp add: fromHexChar_def)

lemma Decode_7C3D: "hex_DecodeString ''7C3D'' = Inr [0x7C, 0x3D]"
  by (simp add: fromHexChar_def)

subsection \<open>The legacy response\<close>

text \<open>
  Claim C5. For every challenge \<open>c\<close> and password \<open>p\<close> the legacy response is \<open>c\<close>, a
  dash, and the MD5 digest of \<open>c\<close>, a dash and \<open>p\<close> as 32 lower-case hex digits. The
  bytes of the password go into the digest as they are. The function has no error result.
\<close>

theorem md5_response:
  "calculateMD5Response c p = c @ ''-'' @ hex_EncodeToString (md5_Sum (bytes_of (c @ ''-'' @ p)))
   \<and> length (hex_EncodeToString (md5_Sum (bytes_of (c @ ''-'' @ p)))) = 32
   \<and> set (hex_EncodeToString (md5_Sum (bytes_of (c @ ''-'' @ p)))) \<subseteq> set ''0123456789abcdef''
   \<and> bytes_of (c @ ''-'' @ p) = bytes_of c @ [0x2d] @ bytes_of p
   \<and> string_of (bytes_of p) = p"
proof -
  have "calculateMD5Response c p = c @ ''-'' @ hex_EncodeToString (md5_Sum (bytes_of (c @ ''-'' @ p)))"
    by (simp add: calculateMD5Response_def Let_def)
  moreover have "length (hex_EncodeToString (md5_Sum (bytes_of (c @ ''-'' @ p)))) = 32"
    by (simp add: length_hex_EncodeToString length_md5_Sum)
  moreover have "bytes_of (c @ ''-'' @ p) = bytes_of c @ [0x2d] @ bytes_of p"
    by (simp add: bytes_of_def)
  ultimately show ?thesis
    using set_hex_EncodeToString string_of_bytes_of by blast
qed

theorem md5_response_witness:
  "calculateMD5Response ''1234567890abcdef'' ''pw'' =
     ''1234567890abcdef-'' @ hex_EncodeToString (md5_Sum (bytes_of ''1234567890abcdef-pw''))
   \<and> calculateMD5Response ''1234567890abcdef'' ''pw'' =
     ''1234567890abcdef-80567cebdd989d277bef8da1d5fe2de9''"
  using md5_response [of "''1234567890abcdef''" "''pw''"] md5_test_vector by simp

subsection \<open>The modern response\<close>

text \<open>
  Claim C1. For a challenge of the five fields \<^verbatim>\<open>2$iter1$salt1$iter2$salt2\<close> whose
  iteration counts and salts decode, the response after its first \<^verbatim>\<open>$\<close> is the
  lower-case hex encoding of the second derived key, and the second derivation takes the
  32 raw bytes of the first key as its password. That part is 64 hex digits, none a
  \<^verbatim>\<open>$\<close>.
\<close>

theorem pbkdf2_response_digest:
  assumes "strings_Split challenge (CHR ''$'') = [''2'', f_iter1, f_salt1, f_iter2, f_salt2]"
      and "strconv_Atoi f_iter1 = Inr iter1"
      and "hex_DecodeString f_salt1 = Inr salt1"
      and "strconv_Atoi f_iter2 = Inr iter2"
      and "hex_DecodeString f_salt2 = Inr salt2"
  shows "\<exists>r. calculatePBKDF2Response challenge password = Inr r
           \<and> after_first (CHR ''$'') r =
               hex_EncodeToString
                 (pbkdf2_Key (pbkdf2_Key (bytes_of password) salt1 iter1 32) salt2 iter2 32)
           \<and> length (pbkdf2_Key (bytes_of password) salt1 iter1 32) = 32
           \<and> length (after_first (CHR ''$'') r) = 64
           \<and> set (after_first (CHR ''$'') r) \<subseteq> set ''0123456789abcdef''
           \<and> CHR ''$'' \<notin> set (after_first (CHR ''$'') r)"
proof -
  let ?h = "hex_EncodeToString
              (pbkdf2_Key (pbkdf2_Key (bytes_of password) salt1 iter1 32) salt2 iter2 32)"
  have r: "calculatePBKDF2Response challenge password = Inr (f_salt2 @ ''$'' @ ?h)"
    using assms by (rule PBKDF2_wellformed)
  have "f_salt2 \<in> set (strings_Split challenge (CHR ''$''))" using assms(1) by simp
  then have "CHR ''$'' \<notin> set f_salt2" by (rule Split_no_sep)
  then have a: "after_first (CHR ''$'') (f_salt2 @ ''$'' @ ?h) = ?h"
    using after_first_append [of "CHR ''$''" f_salt2 ?h] by simp
  have l: "length ?h = 64" by (simp add: length_hex_EncodeToString length_pbkdf2_Key)
  have s: "set ?h \<subseteq> set ''0123456789abcdef''" by (rule set_hex_EncodeToString)
  have "CHR ''$'' \<notin> set ''0123456789abcdef''" by simp
  with s have d: "CHR ''$'' \<notin> set ?h" by blast
  from r a l s d length_pbkdf2_Key [of "bytes_of password" salt1 iter1 32] show ?thesis
    by simp
qed

theorem pbkdf2_response_digest_witness:
  "strings_Split ''2$10000$5A1B$10000$7C3D'' (CHR ''$'') = [''2'', ''10000'', ''5A1B'', ''10000'', ''7C3D'']
   \<and> strconv_Atoi ''10000'' = Inr 10000
   \<and> hex_DecodeString ''5A1B'' = Inr [0x5A, 0x1B]
   \<and> hex_DecodeString ''7C3D'' = Inr [0x7C, 0x3D]
   \<and> (\<exists>r. calculatePBKDF2Response ''2$10000$5A1B$10000$7C3D'' ''secret'' = Inr r
         \<and> after_first (CHR ''$'') r =
             hex_EncodeToString
               (pbkdf2_Key (pbkdf2_Key (bytes_of ''secret'') [0x5A, 0x1B] 10000 32) [0x7C, 0x3D] 10000 32)
         \<and> length (after_first (CHR ''$'') r) = 64
         \<and> CHR ''$'' \<notin> set (after_first (CHR ''$'') r))"
  using pbkdf2_response_digest [OF Split_example Atoi_10000 Decode_5A1B Atoi_10000 Decode_7C3D, of "''secret''"]
    Split_example Atoi_10000 Decode_5A1B Decode_7C3D
  by blast

text \<open>
  Claim C2, as the code has it. For a challenge of five fields whose counts and salts
  decode, the response before its first \<^verbatim>\<open>$\<close> is the salt2 field of the challenge as
  it was sent, not re-encoded. The lower-case hex encoding of the decoded salt is that
  field with its digits \<^verbatim>\<open>A-F\<close> in lower case, so the two agree exactly when the field has
  no upper-case digit.
\<close>

theorem pbkdf2_response_salt_verbatim:
  assumes "strings_Split challenge (CHR ''$'') = [''2'', f_iter1, f_salt1, f_iter2, f_salt2]"
      and "strconv_Atoi f_iter1 = Inr iter1"
      and "hex_DecodeString f_salt1 = Inr salt1"
      and "strconv_Atoi f_iter2 = Inr iter2"
      and "hex_DecodeString f_salt2 = Inr salt2"
  shows "\<exists>r. calculatePBKDF2Response challenge password = Inr r
           \<and> before_first (CHR ''$'') r = f_salt2
           \<and> take (length f_salt2 + 1) r = f_salt2 @ ''$''
           \<and> hex_EncodeToString salt2 = map hex_lower f_salt2
           \<and> (before_first (CHR ''$'') r = hex_EncodeToString salt2
                 \<longleftrightarrow> (\<forall>c \<in> set f_salt2. c \<notin> set ''ABCDEF''))"
proof -
  let ?h = "hex_EncodeToString
              (pbkdf2_Key (pbkdf2_Key (bytes_of password) salt1 iter1 32) salt2 iter2 32)"
  have r: "calculatePBKDF2Response challenge password = Inr (f_salt2 @ ''$'' @ ?h)"
    using assms by (rule PBKDF2_wellformed)
  have "f_salt2 \<in> set (strings_Split challenge (CHR ''$''))" using assms(1) by simp
  then have "CHR ''$'' \<notin> set f_salt2" by (rule Split_no_sep)
  then have b: "before_first (CHR ''$'') (f_salt2 @ ''$'' @ ?h) = f_salt2"
    using before_first_append [of "CHR ''$''" f_salt2 ?h] by simp
  have t: "take (length f_salt2 + 1) (f_salt2 @ ''$'' @ ?h) = f_salt2 @ ''$''" by simp
  have e: "hex_EncodeToString salt2 = map hex_lower f_salt2"
    using assms(5) by (rule hex_roundtrip)
  have "(f_salt2 = map hex_lower f_salt2) \<longleftrightarrow> (\<forall>c \<in> set f_salt2. c \<notin> set ''ABCDEF'')"
    using map_hex_lower_eq [of f_salt2] by metis
  with r b t e show ?thesis by simp
qed

theorem pbkdf2_response_salt_verbatim_witness:
  "strings_Split ''2$10000$5A1B$10000$7C3D'' (CHR ''$'') = [''2'', ''10000'', ''5A1B'', ''10000'', ''7C3D'']
   \<and> strconv_Atoi ''10000'' = Inr 10000
   \<and> hex_DecodeString ''5A1B'' = Inr [0x5A, 0x1B]
   \<and> hex_DecodeString ''7C3D'' = Inr [0x7C, 0x3D]
   \<and> (\<exists>r. calculatePBKDF2Response ''2$10000$5A1B$10000$7C3D'' ''secret'' = Inr r
         \<and> before_first (CHR ''$'') r = ''7C3D''
         \<and> take 5 r = ''7C3D$''
         \<and> hex_EncodeToString [0x7C, 0x3D] = ''7c3d'')"
proof -
  from pbkdf2_response_salt_verbatim
         [OF Split_example Atoi_10000 Decode_5A1B Atoi_10000 Decode_7C3D, of "''secret''"]
  obtain r where r: "calculatePBKDF2Response ''2$10000$5A1B$10000$7C3D'' ''secret'' = Inr r"
    and b: "before_first (CHR ''$'') r = ''7C3D''"
    and t: "take (length ''7C3D'' + 1) r = ''7C3D'' @ ''$''"
    and e: "hex_EncodeToString [0x7C, 0x3D] = map hex_lower ''7C3D''"
    by blast
  have n: "length ''7C3D'' + 1 = 5" by simp
  from t have "take 5 r = ''7C3D'' @ ''$''" unfolding n .
  then have t5: "take 5 r = ''7C3D$''" by simp
  from e have e': "hex_EncodeToString [0x7C, 0x3D] = ''7c3d''" by (simp add: hex_lower_def)
  from r b t5 e' Split_example Atoi_10000 Decode_5A1B Decode_7C3D show ?thesis by blast
qed

text \<open>
  The claim as it was stated fails on its own example: for the challenge
  \<^verbatim>\<open>2$10000$5A1B$10000$7C3D\<close> and the password \<^verbatim>\<open>secret\<close> the response begins with
  \<^verbatim>\<open>7C3D$\<close>, while the lower-case hex encoding of the decoded salt is \<^verbatim>\<open>7c3d\<close>.
\<close>

theorem salt2_uppercase_counterexample:
  "hex_DecodeString ''7C3D'' = Inr [0x7C, 0x3D]
   \<and> hex_EncodeToString [0x7C, 0x3D] = ''7c3d''
   \<and> map_sum id (take 5) (calculatePBKDF2Response ''2$10000$5A1B$10000$7C3D'' ''secret'') = Inr ''7C3D$''
   \<and> map_sum id (take 5) (calculatePBKDF2Response ''2$10000$5A1B$10000$7C3D'' ''secret'') \<noteq> Inr ''7c3d$''
   \<and> map_sum id (before_first (CHR ''$'')) (calculatePBKDF2Response ''2$10000$5A1B$10000$7C3D'' ''secret'')
         \<noteq> Inr (hex_EncodeToString [0x7C, 0x3D])"
proof -
  have e: "hex_EncodeToString [0x7C, 0x3D] = ''7c3d''"
    using hex_roundtrip [OF Decode_7C3D] by (simp add: hex_lower_def)
  have r: "calculatePBKDF2Response ''2$10000$5A1B$10000$7C3D'' ''secret'' =
      Inr (''7C3D'' @ ''$'' @ hex_EncodeToString
             (pbkdf2_Key (pbkdf2_Key (bytes_of ''secret'') [0x5A, 0x1B] 10000 32) [0x7C, 0x3D] 10000 32))"
    using Split_example Atoi_10000 Decode_5A1B Atoi_10000 Decode_7C3D
    by (rule PBKDF2_wellformed)
  show ?thesis
    unfolding r e using Decode_7C3D by (simp add: before_first_def)
qed

text \<open>
  Claim C9. The response computation asks nothing of the iteration counts but that
  they decode: with a count that is zero or negative it still returns a response, and no
  error. Fields after the fifth are ignored: the response is that of the challenge cut
  after its fifth field.
\<close>

theorem pbkdf2_unchecked_counts_and_extra_fields:
  assumes "strings_Split challenge (CHR ''$'') = p0 # f_iter1 # f_salt1 # f_iter2 # f_salt2 # extra"
      and "strconv_Atoi f_iter1 = Inr iter1"
      and "hex_DecodeString f_salt1 = Inr salt1"
      and "strconv_Atoi f_iter2 = Inr iter2"
      and "hex_DecodeString f_salt2 = Inr salt2"
      and "strings_Split challenge5 (CHR ''$'') = [p0, f_iter1, f_salt1, f_iter2, f_salt2]"
  shows "calculatePBKDF2Response challenge password =
           Inr (f_salt2 @ ''$'' @ hex_EncodeToString
                  (pbkdf2_Key (pbkdf2_Key (bytes_of password) salt1 iter1 32) salt2 iter2 32))
         \<and> calculatePBKDF2Response challenge password = calculatePBKDF2Response challenge5 password"
  using PBKDF2_wellformed [OF assms(1-5)] PBKDF2_wellformed [OF assms(6) assms(2-5)] by simp

theorem pbkdf2_unchecked_counts_and_extra_fields_witness:
  "strings_Split ''2$0$aa$-3$bb$zz'' (CHR ''$'') = [''2'', ''0'', ''aa'', ''-3'', ''bb'', ''zz'']
   \<and> strings_Split ''2$0$aa$-3$bb'' (CHR ''$'') = [''2'', ''0'', ''aa'', ''-3'', ''bb'']
   \<and> strconv_Atoi ''0'' = Inr 0
   \<and> strconv_Atoi ''-3'' = Inr (- 3)
   \<and> hex_DecodeString ''aa'' = Inr [0xaa]
   \<and> hex_DecodeString ''bb'' = Inr [0xbb]
   \<and> calculatePBKDF2Response ''2$0$aa$-3$bb$zz'' ''secret'' =
         Inr (''bb$'' @ hex_EncodeToString
                (pbkdf2_Key (pbkdf2_Key (bytes_of ''secret'') [0xaa] 0 32) [0xbb] (- 3) 32))
   \<and> calculatePBKDF2Response ''2$0$aa$-3$bb$zz'' ''secret'' =
         calculatePBKDF2Response ''2$0$aa$-3$bb'' ''secret''"
proof -
  have s6: "strings_Split ''2$0$aa$-3$bb$zz'' (CHR ''$'') = [''2'', ''0'', ''aa'', ''-3'', ''bb'', ''zz'']"
    by simp
  have s5: "strings_Split ''2$0$aa$-3$bb'' (CHR ''$'') = [''2'', ''0'', ''aa'', ''-3'', ''bb'']"
    by simp
  have i1: "strconv_Atoi ''0'' = Inr 0"
    by (simp add: strconv_Atoi_def strconv_ParseUint_def isDigit_def digitVal_def maxUint64_def)
  have i2: "strconv_Atoi ''-3'' = Inr (- 3)"
    by (simp add: strconv_Atoi_def strconv_ParseUint_def isDigit_def digitVal_def maxUint64_def)
  have h1: "hex_DecodeString ''aa'' = Inr [0xaa]" by (simp add: fromHexChar_def)
  have h2: "hex_DecodeString ''bb'' = Inr [0xbb]" by (simp add: fromHexChar_def)
  from pbkdf2_unchecked_counts_and_extra_fields [OF s6 i1 h1 i2 h2 s5, of "''secret''"]
  have a: "calculatePBKDF2Response ''2$0$aa$-3$bb$zz'' ''secret'' =
         Inr (''bb'' @ ''$'' @ hex_EncodeToString
                (pbkdf2_Key (pbkdf2_Key (bytes_of ''secret'') [0xaa] 0 32) [0xbb] (- 3) 32))"
    and b: "calculatePBKDF2Response ''2$0$aa$-3$bb$zz'' ''secret'' =
         calculatePBKDF2Response ''2$0$aa$-3$bb'' ''secret''"
    by blast+
  have "''bb'' @ ''$'' @ hex_EncodeToString
                (pbkdf2_Key (pbkdf2_Key (bytes_of ''secret'') [0xaa] 0 32) [0xbb] (- 3) 32)
      = ''bb$'' @ hex_EncodeToString
                (pbkdf2_Key (pbkdf2_Key (bytes_of ''secret'') [0xaa] 0 32) [0xbb] (- 3) 32)"
    by simp
  with a have a': "calculatePBKDF2Response ''2$0$aa$-3$bb$zz'' ''secret'' =
         Inr (''bb$'' @ hex_EncodeToString
                (pbkdf2_Key (pbkdf2_Key (bytes_of ''secret'') [0xaa] 0 32) [0xbb] (- 3) 32))"
    by (simp only:)
  from a' b s6 s5 i1 i2 h1 h2 show ?thesis by blast
qed

subsection \<open>A malformed modern challenge\<close>

lemma isl_Atoi: "isl (strconv_Atoi s) \<longleftrightarrow> \<not> decodable_int s"
  using strconv_Atoi_iff [of s] by (cases "strconv_Atoi s") simp_all

lemma isl_DecodeString: "isl (hex_DecodeString s) \<longleftrightarrow> \<not> valid_hex s"
  using hex_DecodeString_iff [of s] by (cases "hex_DecodeString s") simp_all

lemma isl_calculatePBKDF2Response:
  "isl (calculatePBKDF2Response challenge password) \<longleftrightarrow>
     length (strings_Split challenge (CHR ''$'')) < 5
     \<or> \<not> decodable_int (strings_Split challenge (CHR ''$'') ! 1)
     \<or> \<not> valid_hex (strings_Split challenge (CHR ''$'') ! 2)
     \<or> \<not> decodable_int (strings_Split challenge (CHR ''$'') ! 3)
     \<or> \<not> valid_hex (strings_Split challenge (CHR ''$'') ! 4)"
  unfolding isl_Atoi [symmetric] isl_DecodeString [symmetric]
  by (simp add: calculatePBKDF2Response_def Let_def split: sum.splits)

lemma calculatePBKDF2Response_Malformed:
  "calculatePBKDF2Response challenge password = Inl e \<Longrightarrow> MalformedChallenge e"
  by (auto simp: calculatePBKDF2Response_def Let_def split: sum.splits if_splits)

text \<open>
  Claim C4. For a challenge that begins with \<^verbatim>\<open>2$\<close> the response computation fails
  exactly when the challenge has fewer than five fields, or its second or fourth field
  is no decodable integer, or its third or fifth field is no valid hex. The error is a
  malformed-challenge error; the handshake stops at it without computing the legacy
  response and without submitting anything, and \<^verbatim>\<open>Login\<close> returns it, wrapped, to its
  caller.
\<close>

theorem malformed_challenge_is_fatal:
  assumes "strings_HasPrefix challenge ''2$''"
      and "httpread_XML w (GetLoginURL (Config client)) = (si, None)"
      and "Challenge si = challenge"
  shows "(isl (calculatePBKDF2Response challenge password) \<longleftrightarrow>
            length (strings_Split challenge (CHR ''$'')) < 5
            \<or> \<not> decodable_int (strings_Split challenge (CHR ''$'') ! 1)
            \<or> \<not> valid_hex (strings_Split challenge (CHR ''$'') ! 2)
            \<or> \<not> decodable_int (strings_Split challenge (CHR ''$'') ! 3)
            \<or> \<not> valid_hex (strings_Split challenge (CHR ''$'') ! 4))
         \<and> (\<forall>e. calculatePBKDF2Response challenge (Password (cfg_Login (Config client))) = Inl e \<longrightarrow>
                MalformedChallenge e
                \<and> solveChallenge w (client\<lparr>SessionInfo := Some (si\<lparr>IsPBKDF2 := True\<rparr>)\<rparr>) =
                    (Some (Wrapf ''failed to calculate PBKDF2 response'' e),
                     client\<lparr>SessionInfo := Some (si\<lparr>IsPBKDF2 := True\<rparr>)\<rparr>,
                     [Log Debug ''PBKDF2 supported''])
                \<and> Login w client =
                    (Some (Wrapf ''unable to solve login challenge''
                             (Wrapf ''failed to calculate PBKDF2 response'' e)),
                     client\<lparr>SessionInfo := Some (si\<lparr>IsPBKDF2 := True\<rparr>)\<rparr>,
                     [HttpGet (GetLoginURL (Config client)), Log Debug ''FRITZ!Box challenge is'',
                      Log Debug ''PBKDF2 supported'']))"
proof (intro conjI allI impI)
  show "isl (calculatePBKDF2Response challenge password) \<longleftrightarrow>
            length (strings_Split challenge (CHR ''$'')) < 5
            \<or> \<not> decodable_int (strings_Split challenge (CHR ''$'') ! 1)
            \<or> \<not> valid_hex (strings_Split challenge (CHR ''$'') ! 2)
            \<or> \<not> decodable_int (strings_Split challenge (CHR ''$'') ! 3)
            \<or> \<not> valid_hex (strings_Split challenge (CHR ''$'') ! 4)"
    by (rule isl_calculatePBKDF2Response)
next
  fix e
  assume e: "calculatePBKDF2Response challenge (Password (cfg_Login (Config client))) = Inl e"
  let ?client = "client\<lparr>SessionInfo := Some (si\<lparr>IsPBKDF2 := True\<rparr>)\<rparr>"
  show "MalformedChallenge e" using e by (rule calculatePBKDF2Response_Malformed)
  have s: "solveChallenge w ?client =
      (Some (Wrapf ''failed to calculate PBKDF2 response'' e), ?client, [Log Debug ''PBKDF2 supported''])"
    using e assms(3) by (intro solveChallenge_malformed [where si = "si\<lparr>IsPBKDF2 := True\<rparr>"]) simp_all
  then show "solveChallenge w ?client =
      (Some (Wrapf ''failed to calculate PBKDF2 response'' e), ?client, [Log Debug ''PBKDF2 supported''])" .
  show "Login w client =
      (Some (Wrapf ''unable to solve login challenge'' (Wrapf ''failed to calculate PBKDF2 response'' e)),
       ?client,
       [HttpGet (GetLoginURL (Config client)), Log Debug ''FRITZ!Box challenge is'',
        Log Debug ''PBKDF2 supported''])"
    using Login_obtained [OF assms(2)] assms(1) assms(3) s by simp
qed

theorem malformed_challenge_is_fatal_witness:
  "strings_HasPrefix ''2$1$aa'' ''2$''
   \<and> httpread_XML (box [] (session ''2$1$aa'' 0) ''0000000000000000'') (GetLoginURL (Config new_client))
        = (session ''2$1$aa'' 0, None)
   \<and> Challenge (session ''2$1$aa'' 0) = ''2$1$aa''
   \<and> length (strings_Split ''2$1$aa'' (CHR ''$'')) = 3
   \<and> calculatePBKDF2Response ''2$1$aa'' ''secret'' = Inl (Errorf ''invalid PBKDF2 challenge format'')
   \<and> Login (box [] (session ''2$1$aa'' 0) ''0000000000000000'') new_client =
        (Some (Wrapf ''unable to solve login challenge''
                 (Wrapf ''failed to calculate PBKDF2 response''
                    (Errorf ''invalid PBKDF2 challenge format''))),
         new_client\<lparr>SessionInfo := Some ((session ''2$1$aa'' 0)\<lparr>IsPBKDF2 := True\<rparr>)\<rparr>,
         [HttpGet ''https://fritz.box/login_sid.lua?version=2'', Log Debug ''FRITZ!Box challenge is'',
          Log Debug ''PBKDF2 supported''])"
proof -
  have p: "strings_HasPrefix ''2$1$aa'' ''2$''" by (simp add: strings_HasPrefix_def)
  have g: "httpread_XML (box [] (session ''2$1$aa'' 0) ''0000000000000000'') (GetLoginURL (Config new_client))
        = (session ''2$1$aa'' 0, None)" by (simp add: box_def)
  have c: "Challenge (session ''2$1$aa'' 0) = ''2$1$aa''" by (simp add: session_def)
  have l: "length (strings_Split ''2$1$aa'' (CHR ''$'')) = 3" by simp
  have pw: "Password (cfg_Login (Config new_client)) = ''secret''"
    by (simp add: new_client_def config_def)
  have url: "GetLoginURL (Config new_client) = ''https://fritz.box/login_sid.lua?version=2''"
    by (simp add: new_client_def config_def)
  have e: "calculatePBKDF2Response ''2$1$aa'' ''secret'' = Inl (Errorf ''invalid PBKDF2 challenge format'')"
    by (simp add: calculatePBKDF2Response_def)
  from malformed_challenge_is_fatal [OF p g c, of "''secret''"] e pw
  have "Login (box [] (session ''2$1$aa'' 0) ''0000000000000000'') new_client =
        (Some (Wrapf ''unable to solve login challenge''
                 (Wrapf ''failed to calculate PBKDF2 response''
                    (Errorf ''invalid PBKDF2 challenge format''))),
         new_client\<lparr>SessionInfo := Some ((session ''2$1$aa'' 0)\<lparr>IsPBKDF2 := True\<rparr>)\<rparr>,
         [HttpGet (GetLoginURL (Config new_client)), Log Debug ''FRITZ!Box challenge is'',
          Log Debug ''PBKDF2 supported''])"
    by simp
  with p g c l e show ?thesis unfolding url by blast
qed

section \<open>The handshake\<close>

lemma posts_append: "posts (a @ b) = posts a @ posts b"
  by (induction a rule: posts.induct) simp_all

lemma sleeps_append: "sleeps (a @ b) = sleeps a @ sleeps b"
  by (induction a rule: sleeps.induct) simp_all

text \<open>
  What \<^verbatim>\<open>Login\<close> does once the challenge is fetched and the response computed: the
  events up to the submission are fixed, and the result hangs on the answer alone.
\<close>

lemma Login_submitted:
  assumes g: "httpread_XML w (GetLoginURL (Config client)) = (si, None)"
      and r: "(if strings_HasPrefix (Challenge si) ''2$''
               then calculatePBKDF2Response (Challenge si) (Password (cfg_Login (Config client)))
               else Inr (calculateMD5Response (Challenge si) (Password (cfg_Login (Config client))))) = Inr r"
      and si': "si' = si\<lparr>IsPBKDF2 := strings_HasPrefix (Challenge si) ''2$''\<rparr>"
      and ev: "ev = [HttpGet (GetLoginURL (Config client)), Log Debug ''FRITZ!Box challenge is'',
                    Log Debug (if strings_HasPrefix (Challenge si) ''2$'' then ''PBKDF2 supported''
                               else ''Falling back to MD5'')]
                 @ (if 0 < sint (BlockTime si)
                    then [Log Info ''Waiting for %d seconds...'', Sleep (BlockTime si * time_Second)]
                    else [])
                 @ [HttpPostForm (GetLoginURL (Config client))
                      [(''username'', Username (cfg_Login (Config client))), (''response'', r)]]"
  shows "Login w client =
     (case fst (sendResponse w client r) of
        Inl err \<Rightarrow>
          (Some (Wrapf ''unable to solve login challenge'' (Wrapf ''failed to login'' err)),
           client\<lparr>SessionInfo := Some si'\<rparr>, ev)
      | Inr sid \<Rightarrow>
          if sid = ''0000000000000000'' \<or> sid = []
          then (Some (Wrapf ''unable to solve login challenge'' (not_solved sid)),
                client\<lparr>SessionInfo := Some (si'\<lparr>SID := sid\<rparr>)\<rparr>, ev)
          else (None, client\<lparr>SessionInfo := Some (si'\<lparr>SID := sid\<rparr>)\<rparr>,
                ev @ [Log Info ''Login successful'']))"
proof -
  let ?c = "client\<lparr>SessionInfo := Some si'\<rparr>"
  have s: "SessionInfo ?c = Some si'" by simp
  have r': "(if IsPBKDF2 si'
            then calculatePBKDF2Response (Challenge si') (Password (cfg_Login (Config ?c)))
            else Inr (calculateMD5Response (Challenge si') (Password (cfg_Login (Config ?c))))) = Inr r"
    using r by (auto simp: si' split: if_splits)
  have sr: "sendResponse w ?c r = sendResponse w client r" by (rule sendResponse_SessionInfo)
  note sc = solveChallenge_submitted [OF s r', of w, unfolded sr]
  show ?thesis
    unfolding Login_obtained [OF g] si' [symmetric] sc
    by (cases "fst (sendResponse w client r)") (simp_all add: ev si')
qed

lemma Login_malformed:
  assumes g: "httpread_XML w (GetLoginURL (Config client)) = (si, None)"
      and p: "strings_HasPrefix (Challenge si) ''2$''"
      and e: "calculatePBKDF2Response (Challenge si) (Password (cfg_Login (Config client))) = Inl e"
  shows "Login w client =
           (Some (Wrapf ''unable to solve login challenge''
                    (Wrapf ''failed to calculate PBKDF2 response'' e)),
            client\<lparr>SessionInfo := Some (si\<lparr>IsPBKDF2 := True\<rparr>)\<rparr>,
            [HttpGet (GetLoginURL (Config client)), Log Debug ''FRITZ!Box challenge is'',
             Log Debug ''PBKDF2 supported''])"
proof -
  have "solveChallenge w (client\<lparr>SessionInfo := Some (si\<lparr>IsPBKDF2 := True\<rparr>)\<rparr>) =
      (Some (Wrapf ''failed to calculate PBKDF2 response'' e),
       client\<lparr>SessionInfo := Some (si\<lparr>IsPBKDF2 := True\<rparr>)\<rparr>, [Log Debug ''PBKDF2 supported''])"
    using e by (intro solveChallenge_malformed [where si = "si\<lparr>IsPBKDF2 := True\<rparr>"]) simp_all
  then show ?thesis using Login_obtained [OF g] p by simp
qed

lemma Login_submitted_events:
  assumes g: "httpread_XML w (GetLoginURL (Config client)) = (si, None)"
      and r: "(if strings_HasPrefix (Challenge si) ''2$''
               then calculatePBKDF2Response (Challenge si) (Password (cfg_Login (Config client)))
               else Inr (calculateMD5Response (Challenge si) (Password (cfg_Login (Config client))))) = Inr r"
  shows "\<exists>tail. (tail = [] \<or> tail = [Log Info ''Login successful''])
      \<and> snd (snd (Login w client)) =
          [HttpGet (GetLoginURL (Config client)), Log Debug ''FRITZ!Box challenge is'',
           Log Debug (if strings_HasPrefix (Challenge si) ''2$'' then ''PBKDF2 supported''
                      else ''Falling back to MD5'')]
          @ (if 0 < sint (BlockTime si)
             then [Log Info ''Waiting for %d seconds...'', Sleep (BlockTime si * time_Second)]
             else [])
          @ [HttpPostForm (GetLoginURL (Config client))
               [(''username'', Username (cfg_Login (Config client))), (''response'', r)]]
          @ tail"
  unfolding Login_submitted [OF g r refl refl]
  by (cases "fst (sendResponse w client r)") auto

subsection \<open>The choice of the algorithm\<close>

text \<open>
  Claim C6. The flag set when the challenge is fetched is true exactly when the
  challenge begins with the two bytes \<^verbatim>\<open>2$\<close>, and \<^verbatim>\<open>Login\<close> follows it: without that
  prefix the legacy response is computed and submitted, whatever else the challenge
  holds; with it the modern computation runs and either its response is submitted or,
  when the challenge does not decode, nothing is.
\<close>

theorem algorithm_selected_by_prefix:
  assumes "httpread_XML w (GetLoginURL (Config client)) = (si, None)"
  shows "IsPBKDF2 (fst (fst (obtainChallenge w client))) = (take 2 (Challenge si) = ''2$'')
     \<and> (take 2 (Challenge si) \<noteq> ''2$'' \<longrightarrow>
          Log Debug ''Falling back to MD5'' \<in> set (snd (snd (Login w client)))
          \<and> Log Debug ''PBKDF2 supported'' \<notin> set (snd (snd (Login w client)))
          \<and> posts (snd (snd (Login w client))) =
              [(GetLoginURL (Config client),
                [(''username'', Username (cfg_Login (Config client))),
                 (''response'', calculateMD5Response (Challenge si) (Password (cfg_Login (Config client))))])])
     \<and> (take 2 (Challenge si) = ''2$'' \<longrightarrow>
          Log Debug ''PBKDF2 supported'' \<in> set (snd (snd (Login w client)))
          \<and> Log Debug ''Falling back to MD5'' \<notin> set (snd (snd (Login w client)))
          \<and> posts (snd (snd (Login w client))) =
              (case calculatePBKDF2Response (Challenge si) (Password (cfg_Login (Config client))) of
                 Inl e \<Rightarrow> []
               | Inr r \<Rightarrow>
                   [(GetLoginURL (Config client),
                     [(''username'', Username (cfg_Login (Config client))), (''response'', r)])]))"
proof (intro conjI impI)
  show "IsPBKDF2 (fst (fst (obtainChallenge w client))) = (take 2 (Challenge si) = ''2$'')"
    using assms by (simp add: obtainChallenge_def Let_def HasPrefix_2dollar)
next
  assume "take 2 (Challenge si) \<noteq> ''2$''"
  then have n: "\<not> strings_HasPrefix (Challenge si) ''2$''" by (simp add: HasPrefix_2dollar)
  from Login_submitted_events [OF assms, of "calculateMD5Response (Challenge si) (Password (cfg_Login (Config client)))"] n
  obtain tail where t: "tail = [] \<or> tail = [Log Info ''Login successful'']"
    and ev: "snd (snd (Login w client)) =
          [HttpGet (GetLoginURL (Config client)), Log Debug ''FRITZ!Box challenge is'',
           Log Debug ''Falling back to MD5'']
          @ (if 0 < sint (BlockTime si)
             then [Log Info ''Waiting for %d seconds...'', Sleep (BlockTime si * time_Second)]
             else [])
          @ [HttpPostForm (GetLoginURL (Config client))
               [(''username'', Username (cfg_Login (Config client))),
                (''response'', calculateMD5Response (Challenge si) (Password (cfg_Login (Config client))))]]
          @ tail"
    by auto
  show "Log Debug ''Falling back to MD5'' \<in> set (snd (snd (Login w client)))"
    unfolding ev by simp
  show "Log Debug ''PBKDF2 supported'' \<notin> set (snd (snd (Login w client)))"
    unfolding ev using t by auto
  show "posts (snd (snd (Login w client))) =
              [(GetLoginURL (Config client),
                [(''username'', Username (cfg_Login (Config client))),
                 (''response'', calculateMD5Response (Challenge si) (Password (cfg_Login (Config client))))])]"
    unfolding ev using t by (auto simp: posts_append)
next
  assume "take 2 (Challenge si) = ''2$''"
  then have p: "strings_HasPrefix (Challenge si) ''2$''" by (simp add: HasPrefix_2dollar)
  have "Log Debug ''PBKDF2 supported'' \<in> set (snd (snd (Login w client)))
      \<and> Log Debug ''Falling back to MD5'' \<notin> set (snd (snd (Login w client)))
      \<and> posts (snd (snd (Login w client))) =
              (case calculatePBKDF2Response (Challenge si) (Password (cfg_Login (Config client))) of
                 Inl e \<Rightarrow> []
               | Inr r \<Rightarrow>
                   [(GetLoginURL (Config client),
                     [(''username'', Username (cfg_Login (Config client))), (''response'', r)])])"
  proof (cases "calculatePBKDF2Response (Challenge si) (Password (cfg_Login (Config client)))")
    case (Inl e)
    from Login_malformed [OF assms p Inl] Inl show ?thesis by simp
  next
    case (Inr r)
    from Login_submitted_events [OF assms, of r] p Inr
    obtain tail where t: "tail = [] \<or> tail = [Log Info ''Login successful'']"
      and ev: "snd (snd (Login w client)) =
          [HttpGet (GetLoginURL (Config client)), Log Debug ''FRITZ!Box challenge is'',
           Log Debug ''PBKDF2 supported'']
          @ (if 0 < sint (BlockTime si)
             then [Log Info ''Waiting for %d seconds...'', Sleep (BlockTime si * time_Second)]
             else [])
          @ [HttpPostForm (GetLoginURL (Config client))
               [(''username'', Username (cfg_Login (Config client))), (''response'', r)]]
          @ tail"
      by auto
    show ?thesis unfolding ev using t Inr by (auto simp: posts_append)
  qed
  then show "Log Debug ''PBKDF2 supported'' \<in> set (snd (snd (Login w client)))"
    and "Log Debug ''Falling back to MD5'' \<notin> set (snd (snd (Login w client)))"
    and "posts (snd (snd (Login w client))) =
              (case calculatePBKDF2Response (Challenge si) (Password (cfg_Login (Config client))) of
                 Inl e \<Rightarrow> []
               | Inr r \<Rightarrow>
                   [(GetLoginURL (Config client),
                     [(''username'', Username (cfg_Login (Config client))), (''response'', r)])])"
    by blast+
qed

theorem algorithm_selected_by_prefix_witness:
  "httpread_XML (box [] (session ''a2$1$aa$1$bb'' 0) ''89abcdef01234567'') (GetLoginURL (Config new_client))
      = (session ''a2$1$aa$1$bb'' 0, None)
   \<and> take 2 (Challenge (session ''a2$1$aa$1$bb'' 0)) \<noteq> ''2$''
   \<and> \<not> IsPBKDF2 (fst (fst (obtainChallenge (box [] (session ''a2$1$aa$1$bb'' 0) ''89abcdef01234567'') new_client)))
   \<and> posts (snd (snd (Login (box [] (session ''a2$1$aa$1$bb'' 0) ''89abcdef01234567'') new_client))) =
        [(''https://fritz.box/login_sid.lua?version=2'',
          [(''username'', ''admin''), (''response'', calculateMD5Response ''a2$1$aa$1$bb'' ''secret'')])]"
proof -
  let ?w = "box [] (session ''a2$1$aa$1$bb'' 0) ''89abcdef01234567''"
  have g: "httpread_XML ?w (GetLoginURL (Config new_client)) = (session ''a2$1$aa$1$bb'' 0, None)"
    by (simp add: box_def)
  have c: "Challenge (session ''a2$1$aa$1$bb'' 0) = ''a2$1$aa$1$bb''" by (simp add: session_def)
  have n: "take 2 (Challenge (session ''a2$1$aa$1$bb'' 0)) \<noteq> ''2$''" unfolding c by simp
  have cfg: "GetLoginURL (Config new_client) = ''https://fritz.box/login_sid.lua?version=2''"
    "Username (cfg_Login (Config new_client)) = ''admin''"
    "Password (cfg_Login (Config new_client)) = ''secret''"
    by (simp_all add: new_client_def config_def)
  from algorithm_selected_by_prefix [OF g] n
  have "\<not> IsPBKDF2 (fst (fst (obtainChallenge ?w new_client)))"
    and "posts (snd (snd (Login ?w new_client))) =
        [(GetLoginURL (Config new_client),
          [(''username'', Username (cfg_Login (Config new_client))),
           (''response'', calculateMD5Response (Challenge (session ''a2$1$aa$1$bb'' 0))
                            (Password (cfg_Login (Config new_client))))])]"
    by blast+
  with g n show ?thesis unfolding cfg c by blast
qed

subsection \<open>The session id\<close>

text \<open>
  Claim C3. Once the submission has returned a session id, the login succeeds exactly
  when that id is neither empty nor sixteen zeros; every other id is accepted. A
  rejected id is quoted in the error that comes back.
\<close>

theorem session_id_validation:
  assumes "httpread_XML w (GetLoginURL (Config client)) = (si, None)"
      and "(if strings_HasPrefix (Challenge si) ''2$''
            then calculatePBKDF2Response (Challenge si) (Password (cfg_Login (Config client)))
            else Inr (calculateMD5Response (Challenge si) (Password (cfg_Login (Config client))))) = Inr r"
      and "fst (sendResponse w client r) = Inr sid"
  shows "(fst (Login w client) = None \<longleftrightarrow> sid \<noteq> [] \<and> sid \<noteq> ''0000000000000000'')
     \<and> (fst (solveChallenge w
               (client\<lparr>SessionInfo := Some (si\<lparr>IsPBKDF2 := strings_HasPrefix (Challenge si) ''2$''\<rparr>)\<rparr>))
           = (if sid = ''0000000000000000'' \<or> sid = [] then Some (not_solved sid) else None))
     \<and> (sid = [] \<or> sid = ''0000000000000000'' \<longrightarrow>
           fst (Login w client) = Some (Wrapf ''unable to solve login challenge'' (not_solved sid))
           \<and> AuthenticationRejected (not_solved sid) sid)
     \<and> not_solved sid =
           Errorf (''challenge not solved, got '' @ [CHR 0x27] @ sid @ [CHR 0x27]
                   @ '' as session id, check login data'')"
proof -
  let ?si = "si\<lparr>IsPBKDF2 := strings_HasPrefix (Challenge si) ''2$''\<rparr>"
  let ?c = "client\<lparr>SessionInfo := Some ?si\<rparr>"
  have s: "SessionInfo ?c = Some ?si" by simp
  have r': "(if IsPBKDF2 ?si
            then calculatePBKDF2Response (Challenge ?si) (Password (cfg_Login (Config ?c)))
            else Inr (calculateMD5Response (Challenge ?si) (Password (cfg_Login (Config ?c))))) = Inr r"
    using assms(2) by (auto split: if_splits)
  have sr: "fst (sendResponse w ?c r) = Inr sid"
    using assms(3) by (simp add: sendResponse_SessionInfo)
  have sc: "fst (solveChallenge w ?c) =
      (if sid = ''0000000000000000'' \<or> sid = [] then Some (not_solved sid) else None)"
    unfolding solveChallenge_submitted [OF s r', of w] sr by simp
  have lg: "fst (Login w client) =
      (if sid = ''0000000000000000'' \<or> sid = []
       then Some (Wrapf ''unable to solve login challenge'' (not_solved sid)) else None)"
    unfolding Login_submitted [OF assms(1) assms(2) refl refl] assms(3) by simp
  show ?thesis
    unfolding sc lg by (auto simp: AuthenticationRejected_def not_solved_def)
qed

theorem session_id_validation_witness:
  "httpread_XML (box [] (session ''1234567890abcdef'' 0) ''0000000000000000'') (GetLoginURL (Config new_client))
      = (session ''1234567890abcdef'' 0, None)
   \<and> \<not> strings_HasPrefix (Challenge (session ''1234567890abcdef'' 0)) ''2$''
   \<and> fst (sendResponse (box [] (session ''1234567890abcdef'' 0) ''0000000000000000'') new_client
            (calculateMD5Response ''1234567890abcdef'' ''secret'')) = Inr ''0000000000000000''
   \<and> fst (Login (box [] (session ''1234567890abcdef'' 0) ''0000000000000000'') new_client) =
        Some (Wrapf ''unable to solve login challenge'' (not_solved ''0000000000000000''))
   \<and> fst (Login (box [] (session ''1234567890abcdef'' 0) ''0000000000000000'') new_client) \<noteq> None"
proof -
  let ?w = "box [] (session ''1234567890abcdef'' 0) ''0000000000000000''"
  have g: "httpread_XML ?w (GetLoginURL (Config new_client)) = (session ''1234567890abcdef'' 0, None)"
    by (simp add: box_def)
  have c: "Challenge (session ''1234567890abcdef'' 0) = ''1234567890abcdef''"
    by (simp add: session_def)
  have n: "\<not> strings_HasPrefix (Challenge (session ''1234567890abcdef'' 0)) ''2$''"
    unfolding c by (simp add: strings_HasPrefix_def)
  have pw: "Password (cfg_Login (Config new_client)) = ''secret''"
    by (simp add: new_client_def config_def)
  have r: "(if strings_HasPrefix (Challenge (session ''1234567890abcdef'' 0)) ''2$''
            then calculatePBKDF2Response (Challenge (session ''1234567890abcdef'' 0))
                   (Password (cfg_Login (Config new_client)))
            else Inr (calculateMD5Response (Challenge (session ''1234567890abcdef'' 0))
                   (Password (cfg_Login (Config new_client)))))
           = Inr (calculateMD5Response ''1234567890abcdef'' ''secret'')"
    using n by (simp add: c pw)
  have s: "fst (sendResponse ?w new_client (calculateMD5Response ''1234567890abcdef'' ''secret''))
      = Inr ''0000000000000000''"
    by (simp add: sendResponse_def box_def)
  from session_id_validation [OF g r s]
  have "fst (Login ?w new_client) =
        Some (Wrapf ''unable to solve login challenge'' (not_solved ''0000000000000000''))"
    by simp
  with g n s show ?thesis by simp
qed

text \<open>
  Claim C10. The session id that a submission returns is written into the session
  state of the client before it is looked at: the client that \<^verbatim>\<open>Login\<close> leaves behind
  holds it also when it is empty or sixteen zeros and the login has failed for that. A
  submission that fails in transport leaves the state as the challenge fetch made it.
\<close>

theorem session_id_stored_before_validation:
  assumes "httpread_XML w (GetLoginURL (Config client)) = (si, None)"
      and "(if strings_HasPrefix (Challenge si) ''2$''
            then calculatePBKDF2Response (Challenge si) (Password (cfg_Login (Config client)))
            else Inr (calculateMD5Response (Challenge si) (Password (cfg_Login (Config client))))) = Inr r"
  shows "(\<forall>sid. fst (sendResponse w client r) = Inr sid \<longrightarrow>
            SessionInfo (fst (snd (Login w client))) =
              Some (si\<lparr>IsPBKDF2 := strings_HasPrefix (Challenge si) ''2$'', SID := sid\<rparr>)
            \<and> (sid = [] \<or> sid = ''0000000000000000'' \<longrightarrow>
                  fst (Login w client) = Some (Wrapf ''unable to solve login challenge'' (not_solved sid))))
     \<and> (\<forall>err. fst (sendResponse w client r) = Inl err \<longrightarrow>
            SessionInfo (fst (snd (Login w client))) =
              Some (si\<lparr>IsPBKDF2 := strings_HasPrefix (Challenge si) ''2$''\<rparr>))"
  unfolding Login_submitted [OF assms refl refl]
  by (cases "fst (sendResponse w client r)") simp_all

theorem session_id_stored_before_validation_witness:
  "httpread_XML (box [] (session ''1234567890abcdef'' 0) []) (GetLoginURL (Config new_client))
      = (session ''1234567890abcdef'' 0, None)
   \<and> \<not> strings_HasPrefix (Challenge (session ''1234567890abcdef'' 0)) ''2$''
   \<and> fst (sendResponse (box [] (session ''1234567890abcdef'' 0) []) new_client
            (calculateMD5Response ''1234567890abcdef'' ''secret'')) = Inr []
   \<and> SID (session ''1234567890abcdef'' 0) = ''0000000000000000''
   \<and> map_option SID (SessionInfo (fst (snd (Login (box [] (session ''1234567890abcdef'' 0) []) new_client))))
        = Some []
   \<and> fst (Login (box [] (session ''1234567890abcdef'' 0) []) new_client) =
        Some (Wrapf ''unable to solve login challenge'' (not_solved []))"
proof -
  let ?w = "box [] (session ''1234567890abcdef'' 0) []"
  have g: "httpread_XML ?w (GetLoginURL (Config new_client)) = (session ''1234567890abcdef'' 0, None)"
    by (simp add: box_def)
  have c: "Challenge (session ''1234567890abcdef'' 0) = ''1234567890abcdef''"
    by (simp add: session_def)
  have n: "\<not> strings_HasPrefix (Challenge (session ''1234567890abcdef'' 0)) ''2$''"
    unfolding c by (simp add: strings_HasPrefix_def)
  have pw: "Password (cfg_Login (Config new_client)) = ''secret''"
    by (simp add: new_client_def config_def)
  have r: "(if strings_HasPrefix (Challenge (session ''1234567890abcdef'' 0)) ''2$''
            then calculatePBKDF2Response (Challenge (session ''1234567890abcdef'' 0))
                   (Password (cfg_Login (Config new_client)))
            else Inr (calculateMD5Response (Challenge (session ''1234567890abcdef'' 0))
                   (Password (cfg_Login (Config new_client)))))
           = Inr (calculateMD5Response ''1234567890abcdef'' ''secret'')"
    using n by (simp add: c pw)
  have s: "fst (sendResponse ?w new_client (calculateMD5Response ''1234567890abcdef'' ''secret'')) = Inr []"
    by (simp add: sendResponse_def box_def)
  from session_id_stored_before_validation [OF g r] s
  have "SessionInfo (fst (snd (Login ?w new_client))) =
          Some ((session ''1234567890abcdef'' 0)
                  \<lparr>IsPBKDF2 := strings_HasPrefix (Challenge (session ''1234567890abcdef'' 0)) ''2$'',
                   SID := []\<rparr>)"
    and l: "fst (Login ?w new_client) = Some (Wrapf ''unable to solve login challenge'' (not_solved []))"
    by blast+
  then have "map_option SID (SessionInfo (fst (snd (Login ?w new_client)))) = Some []" by simp
  moreover have "SID (session ''1234567890abcdef'' 0) = ''0000000000000000''" by (simp add: session_def)
  ultimately show ?thesis using g n s l by blast
qed

subsection \<open>The block time\<close>

lemma sint_seconds:
  fixes b :: int64
  assumes "0 < sint b" and "sint b \<le> 9223372036"
  shows "sint (b * time_Second) = sint b * 1000000000"
proof -
  have "sint (b * time_Second) = signed_take_bit 63 (sint b * 1000000000)"
    by (simp add: sint_word_ariths time_Second_def)
  moreover have "- (2 ^ 63) \<le> sint b * 1000000000" "sint b * 1000000000 < 2 ^ 63"
    using assms by simp_all
  ultimately show ?thesis by (simp add: signed_take_bit_int_eq_self)
qed

text \<open>
  What a login attempt sleeps. When the response computation fails, or the block time
  is not positive, nothing. Otherwise there is one call of \<^verbatim>\<open>time.Sleep\<close>, after the
  response is computed and right before the submission is sent. The duration is the
  block time times \<^verbatim>\<open>time.Second\<close> in 64 bits: up to 9223372036 seconds that is exactly
  the block time.
\<close>

lemma block_time_wait:
  assumes "httpread_XML w (GetLoginURL (Config client)) = (si, None)"
  shows "sleeps (snd (snd (Login w client))) =
           (case (if strings_HasPrefix (Challenge si) ''2$''
                  then calculatePBKDF2Response (Challenge si) (Password (cfg_Login (Config client)))
                  else Inr (calculateMD5Response (Challenge si) (Password (cfg_Login (Config client))))) of
              Inl e \<Rightarrow> []
            | Inr r \<Rightarrow> if 0 < sint (BlockTime si) then [BlockTime si * time_Second] else [])
     \<and> (\<forall>r. (if strings_HasPrefix (Challenge si) ''2$''
               then calculatePBKDF2Response (Challenge si) (Password (cfg_Login (Config client)))
               else Inr (calculateMD5Response (Challenge si) (Password (cfg_Login (Config client))))) = Inr r
              \<and> 0 < sint (BlockTime si) \<longrightarrow>
            (\<exists>tail. sleeps tail = [] \<and> posts tail = []
                  \<and> snd (snd (Login w client)) =
                      [HttpGet (GetLoginURL (Config client)), Log Debug ''FRITZ!Box challenge is'',
                       Log Debug (if strings_HasPrefix (Challenge si) ''2$'' then ''PBKDF2 supported''
                                  else ''Falling back to MD5''),
                       Log Info ''Waiting for %d seconds...'',
                       Sleep (BlockTime si * time_Second),
                       HttpPostForm (GetLoginURL (Config client))
                         [(''username'', Username (cfg_Login (Config client))), (''response'', r)]]
                      @ tail))
     \<and> (0 < sint (BlockTime si) \<and> sint (BlockTime si) \<le> 9223372036 \<longrightarrow>
            suspended_ns (BlockTime si * time_Second) = sint (BlockTime si) * 1000000000)
     \<and> length (sleeps (snd (snd (Login w client)))) \<le> 1"
proof -
  let ?resp = "if strings_HasPrefix (Challenge si) ''2$''
               then calculatePBKDF2Response (Challenge si) (Password (cfg_Login (Config client)))
               else Inr (calculateMD5Response (Challenge si) (Password (cfg_Login (Config client))))"
  have inr: "sleeps (snd (snd (Login w client))) =
        (if 0 < sint (BlockTime si) then [BlockTime si * time_Second] else [])
      \<and> (0 < sint (BlockTime si) \<longrightarrow>
            (\<exists>tail. sleeps tail = [] \<and> posts tail = []
                  \<and> snd (snd (Login w client)) =
                      [HttpGet (GetLoginURL (Config client)), Log Debug ''FRITZ!Box challenge is'',
                       Log Debug (if strings_HasPrefix (Challenge si) ''2$'' then ''PBKDF2 supported''
                                  else ''Falling back to MD5''),
                       Log Info ''Waiting for %d seconds...'',
                       Sleep (BlockTime si * time_Second),
                       HttpPostForm (GetLoginURL (Config client))
                         [(''username'', Username (cfg_Login (Config client))), (''response'', r)]]
                      @ tail))"
    if r: "?resp = Inr r" for r
  proof -
    from Login_submitted_events [OF assms r]
    obtain tail where t: "tail = [] \<or> tail = [Log Info ''Login successful'']"
      and ev: "snd (snd (Login w client)) =
          [HttpGet (GetLoginURL (Config client)), Log Debug ''FRITZ!Box challenge is'',
           Log Debug (if strings_HasPrefix (Challenge si) ''2$'' then ''PBKDF2 supported''
                      else ''Falling back to MD5'')]
          @ (if 0 < sint (BlockTime si)
             then [Log Info ''Waiting for %d seconds...'', Sleep (BlockTime si * time_Second)]
             else [])
          @ [HttpPostForm (GetLoginURL (Config client))
               [(''username'', Username (cfg_Login (Config client))), (''response'', r)]]
          @ tail"
      by blast
    from t have st: "sleeps tail = []" and pt: "posts tail = []" by auto
    have s: "sleeps (snd (snd (Login w client))) =
        (if 0 < sint (BlockTime si) then [BlockTime si * time_Second] else [])"
      unfolding ev by (simp add: sleeps_append st)
    show ?thesis using st pt by (auto simp: s ev)
  qed
  have inl: "sleeps (snd (snd (Login w client))) = []" if e: "?resp = Inl e" for e
  proof -
    from e have p: "strings_HasPrefix (Challenge si) ''2$''"
      and c: "calculatePBKDF2Response (Challenge si) (Password (cfg_Login (Config client))) = Inl e"
      by (simp_all split: if_splits)
    show ?thesis unfolding Login_malformed [OF assms p c] by simp
  qed
  have a: "sleeps (snd (snd (Login w client))) =
           (case ?resp of
              Inl e \<Rightarrow> []
            | Inr r \<Rightarrow> if 0 < sint (BlockTime si) then [BlockTime si * time_Second] else [])"
  proof (cases ?resp)
    case (Inl e)
    with inl [OF Inl] show ?thesis by (simp only: sum.case)
  next
    case (Inr r)
    with inr [OF Inr] show ?thesis by (simp only: sum.case)
  qed
  have b: "\<forall>r. ?resp = Inr r \<and> 0 < sint (BlockTime si) \<longrightarrow>
            (\<exists>tail. sleeps tail = [] \<and> posts tail = []
                  \<and> snd (snd (Login w client)) =
                      [HttpGet (GetLoginURL (Config client)), Log Debug ''FRITZ!Box challenge is'',
                       Log Debug (if strings_HasPrefix (Challenge si) ''2$'' then ''PBKDF2 supported''
                                  else ''Falling back to MD5''),
                       Log Info ''Waiting for %d seconds...'',
                       Sleep (BlockTime si * time_Second),
                       HttpPostForm (GetLoginURL (Config client))
                         [(''username'', Username (cfg_Login (Config client))), (''response'', r)]]
                      @ tail)"
    using inr by blast
  have c: "0 < sint (BlockTime si) \<and> sint (BlockTime si) \<le> 9223372036 \<longrightarrow>
            suspended_ns (BlockTime si * time_Second) = sint (BlockTime si) * 1000000000"
    by (auto simp: suspended_ns_def sint_seconds)
  have d: "length (sleeps (snd (snd (Login w client)))) \<le> 1"
    unfolding a by (cases ?resp) (simp_all only: sum.case, simp_all)
  from a b c d show ?thesis by blast
qed

text \<open>
  Claim C7. With a positive block time the handshake is to suspend for exactly that
  many seconds between computing the response and submitting it. The code multiplies
  the block time by \<^verbatim>\<open>time.Second\<close> in 64 bits without a guard, and so does not for a
  block time beyond 9223372036 seconds: at 9223372037 it logs the wait, the product
  wraps around to a negative duration, \<^verbatim>\<open>time.Sleep\<close> returns at once, and the
  submission is sent with no suspension before it.
\<close>

theorem block_time_overflow:
  "0 < sint (BlockTime (session ''1234567890abcdef'' 9223372037))
   \<and> sint (BlockTime (session ''1234567890abcdef'' 9223372037)) = 9223372037
   \<and> Log Info ''Waiting for %d seconds...''
        \<in> set (snd (snd (Login (box [] (session ''1234567890abcdef'' 9223372037) ''89abcdef01234567'')
                            new_client)))
   \<and> sleeps (snd (snd (Login (box [] (session ''1234567890abcdef'' 9223372037) ''89abcdef01234567'')
                          new_client)))
        = [9223372037 * time_Second]
   \<and> sint (9223372037 * time_Second) = - 9223372036709551616
   \<and> suspension_ns (snd (snd (Login (box [] (session ''1234567890abcdef'' 9223372037) ''89abcdef01234567'')
                                 new_client))) = 0
   \<and> suspension_ns (snd (snd (Login (box [] (session ''1234567890abcdef'' 9223372037) ''89abcdef01234567'')
                                 new_client))) \<noteq> 9223372037 * 1000000000
   \<and> posts (snd (snd (Login (box [] (session ''1234567890abcdef'' 9223372037) ''89abcdef01234567'')
                         new_client)))
        = [(''https://fritz.box/login_sid.lua?version=2'',
            [(''username'', ''admin''),
             (''response'', calculateMD5Response ''1234567890abcdef'' ''secret'')])]"
proof -
  let ?s = "session ''1234567890abcdef'' 9223372037"
  let ?w = "box [] ?s ''89abcdef01234567''"
  have g: "httpread_XML ?w (GetLoginURL (Config new_client)) = (?s, None)"
    by (simp add: box_def)
  have c: "Challenge ?s = ''1234567890abcdef''" by (simp add: session_def)
  have n: "\<not> strings_HasPrefix (Challenge ?s) ''2$''"
    unfolding c by (simp add: strings_HasPrefix_def)
  have cfg: "GetLoginURL (Config new_client) = ''https://fritz.box/login_sid.lua?version=2''"
    "Username (cfg_Login (Config new_client)) = ''admin''"
    "Password (cfg_Login (Config new_client)) = ''secret''"
    by (simp_all add: new_client_def config_def)
  have r: "(if strings_HasPrefix (Challenge ?s) ''2$''
            then calculatePBKDF2Response (Challenge ?s) (Password (cfg_Login (Config new_client)))
            else Inr (calculateMD5Response (Challenge ?s) (Password (cfg_Login (Config new_client)))))
           = Inr (calculateMD5Response ''1234567890abcdef'' ''secret'')"
    using n by (simp add: c cfg)
  have bt: "BlockTime ?s = 9223372037" by (simp add: session_def)
  have b: "sint (BlockTime ?s) = 9223372037" unfolding bt by simp
  have d: "sint (9223372037 * time_Second) = - 9223372036709551616"
    by (simp add: time_Second_def)
  from Login_submitted_events [OF g r]
  obtain tail where t: "tail = [] \<or> tail = [Log Info ''Login successful'']"
    and ev: "snd (snd (Login ?w new_client)) =
          [HttpGet (GetLoginURL (Config new_client)), Log Debug ''FRITZ!Box challenge is'',
           Log Debug (if strings_HasPrefix (Challenge ?s) ''2$'' then ''PBKDF2 supported''
                      else ''Falling back to MD5'')]
          @ (if 0 < sint (BlockTime ?s)
             then [Log Info ''Waiting for %d seconds...'', Sleep (BlockTime ?s * time_Second)]
             else [])
          @ [HttpPostForm (GetLoginURL (Config new_client))
               [(''username'', Username (cfg_Login (Config new_client))),
                (''response'', calculateMD5Response ''1234567890abcdef'' ''secret'')]]
          @ tail"
    by blast
  from t have st: "sleeps tail = []" and pt: "posts tail = []" by auto
  have l: "Log Info ''Waiting for %d seconds...'' \<in> set (snd (snd (Login ?w new_client)))"
    unfolding ev by (simp add: b)
  have s: "sleeps (snd (snd (Login ?w new_client))) = [9223372037 * time_Second]"
    unfolding ev by (simp add: sleeps_append st b bt)
  have z: "suspension_ns (snd (snd (Login ?w new_client))) = 0"
    unfolding suspension_ns_def s by (simp add: suspended_ns_def d)
  have p: "posts (snd (snd (Login ?w new_client))) =
        [(''https://fritz.box/login_sid.lua?version=2'',
            [(''username'', ''admin''),
             (''response'', calculateMD5Response ''1234567890abcdef'' ''secret'')])]"
    unfolding ev by (simp add: posts_append pt b cfg)
  from b l s d z p show ?thesis by simp
qed

section \<open>The trust policy\<close>

lemma file_reads_append: "file_reads (a @ b) = file_reads a @ file_reads b"
  by (induction a rule: file_reads.induct) simp_all

lemma solveChallenge_keeps_transport:
  "HTTPClient (fst (snd (solveChallenge w client))) = HTTPClient client
   \<and> file_reads (snd (snd (solveChallenge w client))) = []"
proof (cases "SessionInfo client")
  case None
  then show ?thesis by (simp add: solveChallenge_def)
next
  case (Some si)
  let ?resp = "if IsPBKDF2 si
            then calculatePBKDF2Response (Challenge si) (Password (cfg_Login (Config client)))
            else Inr (calculateMD5Response (Challenge si) (Password (cfg_Login (Config client))))"
  show ?thesis
  proof (cases ?resp)
    case (Inl e)
    then have p: "IsPBKDF2 si"
      and e: "calculatePBKDF2Response (Challenge si) (Password (cfg_Login (Config client))) = Inl e"
      by (simp_all split: if_splits)
    show ?thesis unfolding solveChallenge_malformed [OF Some p e] by simp
  next
    case (Inr r)
    show ?thesis
      unfolding solveChallenge_submitted [OF Some Inr]
      by (cases "fst (sendResponse w client r)") (simp_all add: file_reads_append)
  qed
qed

lemma Login_keeps_transport:
  "HTTPClient (fst (snd (Login w client))) = HTTPClient client
   \<and> file_reads (snd (snd (Login w client))) = []"
proof -
  obtain si err where g: "httpread_XML w (GetLoginURL (Config client)) = (si, err)"
    by (cases "httpread_XML w (GetLoginURL (Config client))")
  show ?thesis
  proof (cases err)
    case (Some e)
    with g show ?thesis by (simp add: Login_def obtainChallenge_def Let_def)
  next
    case None
    let ?c = "client\<lparr>SessionInfo := Some (si\<lparr>IsPBKDF2 := strings_HasPrefix (Challenge si) ''2$''\<rparr>)\<rparr>"
    obtain res c2 ev2 where sc: "solveChallenge w ?c = (res, c2, ev2)"
      by (cases "solveChallenge w ?c")
    with solveChallenge_keeps_transport [of w ?c]
    have k: "HTTPClient c2 = HTTPClient client" "file_reads ev2 = []" by simp_all
    from g None have g': "httpread_XML w (GetLoginURL (Config client)) = (si, None)" by simp
    show ?thesis
      unfolding Login_obtained [OF g'] sc
      by (cases res) (simp_all add: k file_reads_append)
  qed
qed

text \<open>
  Claim C8. With verification on, a certificate file that cannot be read, or that
  holds no certificate, leaves the client with the nil pool (the trust store of the
  host) and a log line; building the client has no error result, and \<^verbatim>\<open>NewClient\<close>
  fails only when the configuration cannot be read. With verification off the
  configuration skips verification, no file is read and no pool is built. The file is
  read at most once when the client is built, and \<^verbatim>\<open>Login\<close> neither reads it nor
  changes the configuration of the transport.
\<close>

theorem tls_trust_policy:
  "(SkipTLSVerify (cfg_Pki cfg) \<longrightarrow>
      NewClientFromConfig w cfg =
        (\<lparr>Config = cfg, HTTPClient = \<lparr>InsecureSkipVerify = True, RootCAs = None\<rparr>, SessionInfo = None\<rparr>, []))
   \<and> (\<not> SkipTLSVerify (cfg_Pki cfg)
        \<and> (isl (ReadFile w (CertificateFile (cfg_Pki cfg)))
             \<or> (\<exists>data. ReadFile w (CertificateFile (cfg_Pki cfg)) = Inr data \<and> pem_certs w data = [])) \<longrightarrow>
      fst (NewClientFromConfig w cfg) =
        \<lparr>Config = cfg, HTTPClient = \<lparr>InsecureSkipVerify = False, RootCAs = None\<rparr>, SessionInfo = None\<rparr>
      \<and> (\<exists>l m. snd (NewClientFromConfig w cfg) =
             [Log Debug ''Reading certificate file'', FileRead (CertificateFile (cfg_Pki cfg)), Log l m]))
   \<and> (\<forall>data. \<not> SkipTLSVerify (cfg_Pki cfg)
        \<and> ReadFile w (CertificateFile (cfg_Pki cfg)) = Inr data \<and> pem_certs w data \<noteq> [] \<longrightarrow>
      NewClientFromConfig w cfg =
        (\<lparr>Config = cfg, HTTPClient = \<lparr>InsecureSkipVerify = False, RootCAs = Some (pem_certs w data)\<rparr>,
          SessionInfo = None\<rparr>,
         [Log Debug ''Reading certificate file'', FileRead (CertificateFile (cfg_Pki cfg))]))
   \<and> tlsConfigFrom w cfg = (HTTPClient (fst (NewClientFromConfig w cfg)), snd (NewClientFromConfig w cfg))
   \<and> length (file_reads (snd (NewClientFromConfig w cfg))) \<le> 1
   \<and> (\<forall>cfg'. config_New w configfile = Inr cfg' \<longrightarrow>
         NewClient w configfile =
           (Inr (fst (NewClientFromConfig w cfg')), snd (NewClientFromConfig w cfg')))
   \<and> HTTPClient (fst (snd (Login w client))) = HTTPClient client
   \<and> file_reads (snd (snd (Login w client))) = []"
proof -
  have a: "SkipTLSVerify (cfg_Pki cfg) \<longrightarrow>
      NewClientFromConfig w cfg =
        (\<lparr>Config = cfg, HTTPClient = \<lparr>InsecureSkipVerify = True, RootCAs = None\<rparr>, SessionInfo = None\<rparr>, [])"
    by (simp add: NewClientFromConfig_def tlsConfigFrom_def buildCertPool_def)
  have b: "\<not> SkipTLSVerify (cfg_Pki cfg)
        \<and> (isl (ReadFile w (CertificateFile (cfg_Pki cfg)))
             \<or> (\<exists>data. ReadFile w (CertificateFile (cfg_Pki cfg)) = Inr data \<and> pem_certs w data = [])) \<longrightarrow>
      fst (NewClientFromConfig w cfg) =
        \<lparr>Config = cfg, HTTPClient = \<lparr>InsecureSkipVerify = False, RootCAs = None\<rparr>, SessionInfo = None\<rparr>
      \<and> (\<exists>l m. snd (NewClientFromConfig w cfg) =
             [Log Debug ''Reading certificate file'', FileRead (CertificateFile (cfg_Pki cfg)), Log l m])"
    by (cases "ReadFile w (CertificateFile (cfg_Pki cfg))")
       (auto simp: NewClientFromConfig_def tlsConfigFrom_def buildCertPool_def Let_def)
  have c: "\<forall>data. \<not> SkipTLSVerify (cfg_Pki cfg)
        \<and> ReadFile w (CertificateFile (cfg_Pki cfg)) = Inr data \<and> pem_certs w data \<noteq> [] \<longrightarrow>
      NewClientFromConfig w cfg =
        (\<lparr>Config = cfg, HTTPClient = \<lparr>InsecureSkipVerify = False, RootCAs = Some (pem_certs w data)\<rparr>,
          SessionInfo = None\<rparr>,
         [Log Debug ''Reading certificate file'', FileRead (CertificateFile (cfg_Pki cfg))])"
    by (simp add: NewClientFromConfig_def tlsConfigFrom_def buildCertPool_def Let_def)
  have d: "tlsConfigFrom w cfg = (HTTPClient (fst (NewClientFromConfig w cfg)), snd (NewClientFromConfig w cfg))"
    by (simp add: NewClientFromConfig_def split: prod.splits)
  have e: "length (file_reads (snd (NewClientFromConfig w cfg))) \<le> 1"
    by (cases "ReadFile w (CertificateFile (cfg_Pki cfg))")
       (simp_all add: NewClientFromConfig_def tlsConfigFrom_def buildCertPool_def Let_def)
  have f: "\<forall>cfg'. config_New w configfile = Inr cfg' \<longrightarrow>
         NewClient w configfile =
           (Inr (fst (NewClientFromConfig w cfg')), snd (NewClientFromConfig w cfg'))"
    by (simp add: NewClient_def split: prod.splits)
  from a b c d e f Login_keeps_transport [of w client] show ?thesis by blast
qed

theorem tls_trust_policy_witness:
  "\<not> SkipTLSVerify (cfg_Pki (config False ''/etc/fritz.pem''))
   \<and> ReadFile (box ''no certificate'' (session [] 0) []) (CertificateFile (cfg_Pki (config False ''/etc/fritz.pem'')))
       = Inr ''no certificate''
   \<and> pem_certs (box ''no certificate'' (session [] 0) []) ''no certificate'' = []
   \<and> fst (NewClientFromConfig (box ''no certificate'' (session [] 0) []) (config False ''/etc/fritz.pem'')) =
        \<lparr>Config = config False ''/etc/fritz.pem'',
          HTTPClient = \<lparr>InsecureSkipVerify = False, RootCAs = None\<rparr>, SessionInfo = None\<rparr>
   \<and> SkipTLSVerify (cfg_Pki (config True ''/etc/fritz.pem''))
   \<and> NewClientFromConfig (box ''no certificate'' (session [] 0) []) (config True ''/etc/fritz.pem'') =
        (\<lparr>Config = config True ''/etc/fritz.pem'',
           HTTPClient = \<lparr>InsecureSkipVerify = True, RootCAs = None\<rparr>, SessionInfo = None\<rparr>, [])"
proof -
  let ?w = "box ''no certificate'' (session [] 0) []"
  have s: "\<not> SkipTLSVerify (cfg_Pki (config False ''/etc/fritz.pem''))" by (simp add: config_def)
  have f: "ReadFile ?w (CertificateFile (cfg_Pki (config False ''/etc/fritz.pem''))) = Inr ''no certificate''"
    by (simp add: config_def box_def)
  have p: "pem_certs ?w ''no certificate'' = []" by (simp add: box_def)
  have t: "SkipTLSVerify (cfg_Pki (config True ''/etc/fritz.pem''))" by (simp add: config_def)
  from tls_trust_policy [of "config False ''/etc/fritz.pem''" ?w] s f p
  have 1: "fst (NewClientFromConfig ?w (config False ''/etc/fritz.pem'')) =
        \<lparr>Config = config False ''/etc/fritz.pem'',
          HTTPClient = \<lparr>InsecureSkipVerify = False, RootCAs = None\<rparr>, SessionInfo = None\<rparr>"
    by blast
  from tls_trust_policy [of "config True ''/etc/fritz.pem''" ?w] t
  have 2: "NewClientFromConfig ?w (config True ''/etc/fritz.pem'') =
        (\<lparr>Config = config True ''/etc/fritz.pem'',
           HTTPClient = \<lparr>InsecureSkipVerify = True, RootCAs = None\<rparr>, SessionInfo = None\<rparr>, [])"
    by blast
  from s f p t 1 2 show ?thesis by blast
qed

end
